theory Spec2Isabelle
  imports Complex_Main
begin

section \<open>benningsolarvalues: the metrics worker of app.py\<close>

text \<open>
  The worker of \<^verbatim>\<open>app.py\<close> fetches a semicolon-delimited table from the inverter,
  turns every line into a metric, publishes the list to MQTT and repeats this on a
  fixed schedule. The development follows the class \<^verbatim>\<open>BenningSolarMetricsWorker\<close>:
  the line parser inside \<^verbatim>\<open>do_repeat\<close>, \<^verbatim>\<open>mqtt_connect\<close>, \<^verbatim>\<open>do_repeat\<close> and
  \<^verbatim>\<open>every\<close>.
\<close>

subsection \<open>Python values\<close>

text \<open>
  A Python \<^verbatim>\<open>str\<close> is represented by its UTF-8 encoding, a list of bytes. The
  separators the program uses (\<^verbatim>\<open>;\<close> and \<^verbatim>\<open>"\<close>) are ASCII, so splitting and
  stripping act on the bytes exactly as they act on the code points.

  Exceptions are values. \<open>RequestException\<close> stands for the exceptions of
  \<^verbatim>\<open>requests.get\<close> other than \<^verbatim>\<open>requests.exceptions.ConnectionError\<close>, \<open>MqttException\<close>
  for one raised by the MQTT client; both are subclasses of \<^verbatim>\<open>Exception\<close>.
  \<open>AppError\<close> is the program's own \<^verbatim>\<open>class Error(Exception)\<close> with its message.
  \<open>KeyboardInterrupt\<close> is the one member that is a \<^verbatim>\<open>BaseException\<close> but not an
  \<^verbatim>\<open>Exception\<close>.
\<close>

datatype exn =
    IndexError
  | ValueError
  | ZeroDivisionError
  | AppError string
  | RequestException
  | MqttException
  | KeyboardInterrupt

fun is_Exception :: "exn \<Rightarrow> bool" where
  "is_Exception KeyboardInterrupt = False"
| "is_Exception _ = True"

text \<open>
  Python floats are IEEE binary64 numbers. The program uses three operations on them:
  \<^verbatim>\<open>float(s)\<close> on a string (raising \<^verbatim>\<open>ValueError\<close> when \<open>s\<close> is no number),
  the product of two floats, and the conversion of the integer constants
  \<^verbatim>\<open>1000\<close> and \<^verbatim>\<open>3600\<close> in \<^verbatim>\<open>value * 1000\<close>. They are parameters of the model, so
  every theorem holds for whatever these operations compute.
\<close>

record 'f float_ops =
  pyfloat :: "string \<Rightarrow> 'f option"
  fmul :: "'f \<Rightarrow> 'f \<Rightarrow> 'f"
  fint :: "int \<Rightarrow> 'f"

subsection \<open>The string methods used by the parser\<close>

text \<open>
  \<^verbatim>\<open>str.splitlines()\<close> breaks at \<^verbatim>\<open>\n\<close>, \<^verbatim>\<open>\r\<close>, \<^verbatim>\<open>\r\n\<close> (one boundary),
  \<^verbatim>\<open>\v\<close>, \<^verbatim>\<open>\f\<close>, \<^verbatim>\<open>\x1c\<close>, \<^verbatim>\<open>\x1d\<close>, \<^verbatim>\<open>\x1e\<close>, U+0085, U+2028 and U+2029.
  \<open>line_break s\<close> is the number of bytes of the boundary at the head of \<open>s\<close>, and
  \<open>0\<close> when \<open>s\<close> does not start with one.
\<close>

definition line_break :: "string \<Rightarrow> nat" where
  "line_break s =
     (if take 2 s = [CHR 0x0D, CHR 0x0A] then 2
      else if take 1 s \<in> {[CHR 0x0A], [CHR 0x0D], [CHR 0x0B], [CHR 0x0C],
                            [CHR 0x1C], [CHR 0x1D], [CHR 0x1E]} then 1
      else if take 2 s = [CHR 0xC2, CHR 0x85] then 2
      else if take 3 s = [CHR 0xE2, CHR 0x80, CHR 0xA8] then 3
      else if take 3 s = [CHR 0xE2, CHR 0x80, CHR 0xA9] then 3
      else 0)"

text \<open>
  \<open>splitlines_from cur s\<close>: \<open>cur\<close> is the line read so far. A line ends at each
  boundary, also when it is empty; what follows the last boundary is a line only
  when it is not empty.
\<close>

function splitlines_from :: "string \<Rightarrow> string \<Rightarrow> string list" where
  "splitlines_from cur [] = (if cur = [] then [] else [cur])"
| "splitlines_from cur (c # cs) =
     (if line_break (c # cs) = 0 then splitlines_from (cur @ [c]) cs
      else cur # splitlines_from [] (drop (line_break (c # cs)) (c # cs)))"
  by pat_completeness auto
termination
  by (relation "measure (\<lambda>(cur, s). length s)") auto

definition py_splitlines :: "string \<Rightarrow> string list" where
  "py_splitlines s = splitlines_from [] s"

text \<open>\<^verbatim>\<open>str.split(sep)\<close> with a one-character separator: always at least one field.\<close>

fun py_split :: "char \<Rightarrow> string \<Rightarrow> string list" where
  "py_split sep [] = [[]]"
| "py_split sep (c # cs) =
     (if c = sep then [] # py_split sep cs
      else (case py_split sep cs of
              [] \<Rightarrow> [[c]]
            | f # fs \<Rightarrow> (c # f) # fs))"

text \<open>\<^verbatim>\<open>str.strip(chars)\<close> with one character: removed at both ends, as often as it occurs.\<close>

definition py_strip :: "char \<Rightarrow> string \<Rightarrow> string" where
  "py_strip c s = rev (dropWhile (\<lambda>x. x = c) (rev (dropWhile (\<lambda>x. x = c) s)))"

text \<open>\<^verbatim>\<open>v[i]\<close> for a non-negative constant \<open>i\<close>: \<^verbatim>\<open>IndexError\<close> past the end.\<close>

definition index :: "'a list \<Rightarrow> nat \<Rightarrow> exn + 'a" where
  "index v i = (if i < length v then Inr (v ! i) else Inl IndexError)"

subsection \<open>One line of the table (lines 176 to 208 of app.py)\<close>

record 'f metric =
  m_id :: string
  m_descriptor :: string
  m_type :: string
  m_value :: 'f
  m_description :: string
  m_unit :: string
  m_unit_zabbix :: string

text \<open>
  Lines 181 to 184. Python evaluates \<^verbatim>\<open>float(rawvalue)\<close> before
  \<^verbatim>\<open>float(multiplier)\<close>; with the multiplier \<^verbatim>\<open>'1.000000'\<close> only the raw value is
  converted.
\<close>

definition scaled_value :: "'f float_ops \<Rightarrow> string \<Rightarrow> string \<Rightarrow> exn + 'f" where
  "scaled_value ops rawvalue multiplier =
     (if multiplier \<noteq> ''1.000000'' then
        (case pyfloat ops rawvalue of
           None \<Rightarrow> Inl ValueError
         | Some r \<Rightarrow>
             (case pyfloat ops multiplier of
                None \<Rightarrow> Inl ValueError
              | Some m \<Rightarrow> Inr (fmul ops r m)))
      else
        (case pyfloat ops rawvalue of
           None \<Rightarrow> Inl ValueError
         | Some r \<Rightarrow> Inr r))"

text \<open>
  Lines 187 to 200: the three unit rules, run one after the other on the variables
  \<open>(unit, unit_zabbix, value)\<close>. Line 188 starts \<open>unit_zabbix\<close> at the unit.
\<close>

definition mA_rule :: "'f float_ops \<Rightarrow> string \<times> string \<times> 'f \<Rightarrow> string \<times> string \<times> 'f" where
  "mA_rule ops s =
     (case s of (unit, unit_zabbix, val) \<Rightarrow>
        if unit = ''mA'' then (''A'', ''A'', fmul ops val (fint ops 1000)) else s)"

definition kWh_rule :: "string \<times> string \<times> 'f \<Rightarrow> string \<times> string \<times> 'f" where
  "kWh_rule s =
     (case s of (unit, unit_zabbix, val) \<Rightarrow>
        if unit = ''kWh'' then (unit, ''!kWh'', val) else s)"

definition h_rule :: "'f float_ops \<Rightarrow> string \<times> string \<times> 'f \<Rightarrow> string \<times> string \<times> 'f" where
  "h_rule ops s =
     (case s of (unit, unit_zabbix, val) \<Rightarrow>
        if unit = ''h'' then (''s'', ''s'', fmul ops val (fint ops 3600)) else s)"

definition unit_rules :: "'f float_ops \<Rightarrow> string \<times> string \<times> 'f \<Rightarrow> string \<times> string \<times> 'f" where
  "unit_rules ops s = h_rule ops (kWh_rule (mA_rule ops s))"

text \<open>Lines 202 to 206: the two descriptors whose value is an absolute timestamp.\<close>

definition timestamp_descriptors :: "string list" where
  "timestamp_descriptors =
     [''SystemState_persistent.Global.LastSystemBackupTimestamp'',
      ''SystemState_persistent.SolarPortal.LastSendProtocolTimestamp'']"

definition descriptor_rule :: "string \<Rightarrow> string \<times> string \<times> 'f \<Rightarrow> string \<times> string \<times> 'f" where
  "descriptor_rule descriptor s =
     (case s of (unit, unit_zabbix, val) \<Rightarrow>
        let uz1 = (if descriptor = ''SystemState_persistent.Global.LastSystemBackupTimestamp''
                   then ''unixtime'' else unit_zabbix);
            uz2 = (if descriptor = ''SystemState_persistent.SolarPortal.LastSendProtocolTimestamp''
                   then ''unixtime'' else uz1)
        in (unit, uz2, val))"

text \<open>
  Lines 187 to 206 as one function of the descriptor, the unit and the scaled value:
  the result is \<open>(unit, unit_zabbix, value)\<close> as the metric of line 208 takes them.
\<close>

definition normalize :: "'f float_ops \<Rightarrow> string \<Rightarrow> string \<Rightarrow> 'f \<Rightarrow> string \<times> string \<times> 'f" where
  "normalize ops descriptor unit val =
     descriptor_rule descriptor (unit_rules ops (unit, unit, val))"

text \<open>
  The body of the loop. The reads \<^verbatim>\<open>v[3]\<close>, \<^verbatim>\<open>v[5]\<close>, the conversions and
  \<^verbatim>\<open>v[6]\<close> happen in this order, so a short line raises \<^verbatim>\<open>IndexError\<close> and a
  non-numeric field \<^verbatim>\<open>ValueError\<close>, whichever the code reaches first. Once
  \<^verbatim>\<open>v[6]\<close> exists, the reads of \<^verbatim>\<open>v[0]\<close>, \<^verbatim>\<open>v[1]\<close>, \<^verbatim>\<open>v[2]\<close> and \<^verbatim>\<open>v[4]\<close> cannot fail.
\<close>

definition parse_line :: "'f float_ops \<Rightarrow> string \<Rightarrow> exn + 'f metric" where
  "parse_line ops line =
     (let v = py_split CHR '';'' line in
      case index v 3 of
        Inl e \<Rightarrow> Inl e
      | Inr rawvalue \<Rightarrow>
     (case index v 5 of
        Inl e \<Rightarrow> Inl e
      | Inr multiplier \<Rightarrow>
     (case scaled_value ops rawvalue multiplier of
        Inl e \<Rightarrow> Inl e
      | Inr val \<Rightarrow>
     (case index v 6 of
        Inl e \<Rightarrow> Inl e
      | Inr unit \<Rightarrow>
     (case normalize ops (v ! 1) unit val of
        (unit', unit_zabbix, val') \<Rightarrow>
          Inr \<lparr> m_id = v ! 0, m_descriptor = v ! 1, m_type = v ! 2, m_value = val',
                m_description = py_strip CHR 0x22 (v ! 4), m_unit = unit',
                m_unit_zabbix = unit_zabbix \<rparr>)))))"

text \<open>
  The loop of line 174 over the lines already split: the first line that raises ends
  the loop with its exception, otherwise the metrics are collected in the order of
  the lines.
\<close>

fun parse_lines :: "'f float_ops \<Rightarrow> string list \<Rightarrow> exn + 'f metric list" where
  "parse_lines ops [] = Inr []"
| "parse_lines ops (l # ls) =
     (case parse_line ops l of
        Inl e \<Rightarrow> Inl e
      | Inr m \<Rightarrow>
          (case parse_lines ops ls of
             Inl e \<Rightarrow> Inl e
           | Inr ms \<Rightarrow> Inr (m # ms)))"

definition parse :: "'f float_ops \<Rightarrow> string \<Rightarrow> exn + 'f metric list" where
  "parse ops body = parse_lines ops (py_splitlines body)"

subsection \<open>An exact instance of the float operations\<close>

text \<open>
  For concrete rows the operations are instantiated with exact arithmetic on plain
  decimal literals (an optional sign, digits, an optional fraction): \<open>dec_float\<close>
  gives the number the literal denotes and \<open>None\<close> for any other string. On the
  rows evaluated below (\<^verbatim>\<open>5.0\<close>, \<^verbatim>\<open>2.0\<close>, \<^verbatim>\<open>1000\<close>, \<^verbatim>\<open>3600\<close> and their products)
  every number is a small integer, which binary64 represents and multiplies exactly.
\<close>

definition is_digit :: "char \<Rightarrow> bool" where
  "is_digit c = (48 \<le> (of_char c :: nat) \<and> (of_char c :: nat) \<le> 57)"

definition digits_nat :: "string \<Rightarrow> nat" where
  "digits_nat s = foldl (\<lambda>n c. 10 * n + (of_char c - 48)) 0 s"

definition dec_unsigned :: "string \<Rightarrow> real option" where
  "dec_unsigned s =
     (case py_split CHR ''.'' s of
        [ip] \<Rightarrow>
          if ip \<noteq> [] \<and> list_all is_digit ip then Some (real (digits_nat ip)) else None
      | [ip, fp] \<Rightarrow>
          if ip @ fp \<noteq> [] \<and> list_all is_digit (ip @ fp)
          then Some (real (digits_nat ip) + real (digits_nat fp) / 10 ^ length fp)
          else None
      | _ \<Rightarrow> None)"

definition dec_float :: "string \<Rightarrow> real option" where
  "dec_float s =
     (case s of
        [] \<Rightarrow> None
      | c # cs \<Rightarrow>
          if c = CHR ''-'' then map_option uminus (dec_unsigned cs)
          else if c = CHR ''+'' then dec_unsigned cs
          else dec_unsigned s)"

definition exact_ops :: "real float_ops" where
  "exact_ops = \<lparr> pyfloat = dec_float, fmul = (*), fint = of_int \<rparr>"

subsection \<open>The worker and its environment\<close>

text \<open>
  The configuration read from \<^verbatim>\<open>config.yaml\<close>: \<^verbatim>\<open>config['benning']\<close>,
  \<^verbatim>\<open>config['mqtt']\<close> and \<^verbatim>\<open>config['repeat']\<close>.
\<close>

record config =
  benning_host :: string
  benning_username :: string
  benning_password :: string
  mqtt_host :: string
  mqtt_topic :: string
  repeat :: real

text \<open>
  Everything the worker does to the outside is an event of a trace, in the order of
  the calls: the log records (one constructor for each logging call of the class),
  the HTTP request, the creation of an MQTT client, its connect call, the publish
  call with the list handed to \<^verbatim>\<open>json.dumps\<close>, and the sleep of the scheduler.
\<close>

datatype 'f event =
    LogInfoFetch string
  | LogErrorFetch
  | LogInfoProcessed nat
  | LogWarningNotConnected
  | LogErrorConnect
  | LogExceptionTask exn
  | HttpGet string "string \<times> string"
  | MqttClient
  | MqttConnect string nat nat
  | MqttPublish string "'f metric list"
  | Sleep real

text \<open>
  The state that outlives a call: the attribute \<^verbatim>\<open>self.mqtt_connected\<close> and the
  trace. \<^verbatim>\<open>self.mqtt_client\<close> is the client of the last \<open>MqttClient\<close> event.
\<close>

record 'f worker =
  mqtt_connected :: bool
  trace :: "'f event list"

definition emit :: "'f event list \<Rightarrow> 'f worker \<Rightarrow> 'f worker" where
  "emit es w = w\<lparr> trace := trace w @ es \<rparr>"

text \<open>
  What the outside answers during one call of \<^verbatim>\<open>do_repeat\<close>: the outcome of
  \<^verbatim>\<open>requests.get\<close>, whether \<^verbatim>\<open>mqtt_client.connect\<close> returns (\<open>True\<close>) or raises an
  \<^verbatim>\<open>Exception\<close>, and whether \<^verbatim>\<open>mqtt_client.publish\<close> raises.
\<close>

datatype http_outcome =
    RaisesConnectionError
  | RaisesRequestException
  | Response int string

record cycle_env =
  http :: http_outcome
  connect_ok :: bool
  publish_raises :: bool

text \<open>
  \<^verbatim>\<open>mqtt_connect\<close> (lines 124 to 137): a new client, one connect call; the
  \<^verbatim>\<open>except Exception\<close> branch logs and clears the flag, the \<^verbatim>\<open>else\<close> branch sets it.
\<close>

definition mqtt_connect :: "config \<Rightarrow> bool \<Rightarrow> 'f worker \<Rightarrow> 'f worker" where
  "mqtt_connect cfg ok w =
     (let w1 = emit [MqttClient, MqttConnect (mqtt_host cfg) 1883 60] w in
      if ok then w1\<lparr> mqtt_connected := True \<rparr>
      else (emit [LogErrorConnect] w1)\<lparr> mqtt_connected := False \<rparr>)"

definition url_of :: "config \<Rightarrow> string" where
  "url_of cfg = ''http://'' @ benning_host cfg @ ''/getallentries.cgi?firstOid=10000&lastOid=20000''"

text \<open>
  \<^verbatim>\<open>do_repeat\<close> (lines 154 to 221). The result is the exception that leaves the call,
  if any, and the worker as the call leaves it: what was logged before a
  \<^verbatim>\<open>raise\<close> stays logged.
\<close>

definition do_repeat ::
  "'f float_ops \<Rightarrow> config \<Rightarrow> cycle_env \<Rightarrow> 'f worker \<Rightarrow> exn option \<times> 'f worker" where
  "do_repeat ops cfg env w =
     (let w1 = emit [LogInfoFetch (url_of cfg),
                     HttpGet (url_of cfg) (benning_username cfg, benning_password cfg)] w in
      case http env of
        RaisesConnectionError \<Rightarrow> (None, emit [LogErrorFetch] w1)
      | RaisesRequestException \<Rightarrow> (Some RequestException, w1)
      | Response status_code body \<Rightarrow>
          if status_code = 200 then
            (case parse ops body of
               Inl e \<Rightarrow> (Some e, w1)
             | Inr allmetrics \<Rightarrow>
                 let w2 = emit [LogInfoProcessed (length (py_splitlines body))] w1 in
                 if mqtt_connected w2 then
                   (let w3 = emit [MqttPublish (mqtt_topic cfg) allmetrics] w2 in
                    if publish_raises env then (Some MqttException, w3) else (None, w3))
                 else
                   (None, mqtt_connect cfg (connect_ok env) (emit [LogWarningNotConnected] w2)))
          else (Some (AppError (''error fetching data: '' @ body)), w1))"

subsection \<open>The scheduler (lines 141 to 152)\<close>

text \<open>
  Clock readings and the delay are binary64 numbers; the finite ones are real
  numbers, and that is how they are carried here. Line 152,
  \<^verbatim>\<open>next_time += (time.time() - next_time) // delay * delay + delay\<close>, applies
  float operations of four kinds, each of which rounds: a difference, a floor
  division, a product and two sums. As with the floats of the parser they are
  parameters of the model, so \<open>advance\<close> is line 152 for whatever these operations
  compute. The floor division raises \<^verbatim>\<open>ZeroDivisionError\<close> for a delay of zero,
  outside the \<^verbatim>\<open>try\<close>; \<open>every_step\<close> below has that branch.
\<close>

record clock_arith =
  t_sub :: "real \<Rightarrow> real \<Rightarrow> real"
  t_floordiv :: "real \<Rightarrow> real \<Rightarrow> real"
  t_mul :: "real \<Rightarrow> real \<Rightarrow> real"
  t_add :: "real \<Rightarrow> real \<Rightarrow> real"

definition advance :: "clock_arith \<Rightarrow> real \<Rightarrow> real \<Rightarrow> real \<Rightarrow> real" where
  "advance ar delay next_time now =
     t_add ar next_time
       (t_add ar (t_mul ar (t_floordiv ar (t_sub ar now next_time) delay) delay) delay)"

text \<open>The operations without rounding.\<close>

definition exact_arith :: clock_arith where
  "exact_arith =
     \<lparr> t_sub = (-), t_floordiv = (\<lambda>x y. of_int \<lfloor>x / y\<rfloor>), t_mul = (*), t_add = (+) \<rparr>"

text \<open>
  The operations of binary64 on finite values. \<open>rne\<close> rounds to the nearest integer,
  a tie to the even one. \<open>b64_round\<close> rounds a real number to the nearest number
  with a significand of 53 bits: a positive \<open>x\<close> is scaled by powers of two into
  the interval from \<open>2^52\<close> to \<open>2^53\<close> and rounded there; \<open>round_up\<close> doubles at
  most 1074 times, which is the spacing \<open>2^-1074\<close> of the subnormal numbers.
  A result of magnitude \<open>2^1024\<close> or more, which binary64 replaces by an infinity,
  is outside the carrier and keeps its finite value here.
\<close>

definition rne :: "real \<Rightarrow> int" where
  "rne x =
     (if x - of_int \<lfloor>x\<rfloor> < 1 / 2 then \<lfloor>x\<rfloor>
      else if 1 / 2 < x - of_int \<lfloor>x\<rfloor> then \<lfloor>x\<rfloor> + 1
      else if even \<lfloor>x\<rfloor> then \<lfloor>x\<rfloor> else \<lfloor>x\<rfloor> + 1)"

function round_up :: "nat \<Rightarrow> real \<Rightarrow> real" where
  "round_up k x =
     (if x < 2 ^ 52 \<and> k < 1074 then round_up (Suc k) (2 * x) / 2 else of_int (rne x))"
  by pat_completeness auto
termination
  by (relation "measure (\<lambda>(k, x). 1074 - k)") auto

function round_down :: "real \<Rightarrow> real" where
  "round_down x = (if 2 ^ 53 \<le> x then 2 * round_down (x / 2) else of_int (rne x))"
  by pat_completeness auto
termination
proof (relation "measure (\<lambda>x. nat \<lfloor>x\<rfloor>)")
  show "wf (measure (\<lambda>x::real. nat \<lfloor>x\<rfloor>))" by simp
next
  fix x :: real
  assume a: "2 ^ 53 \<le> x"
  have "(2::real) \<le> 2 ^ 53" by simp
  with a have x2: "2 \<le> x" by linarith
  have "\<lfloor>x / 2\<rfloor> < \<lfloor>x\<rfloor>"
  proof -
    have "of_int \<lfloor>x / 2\<rfloor> \<le> x / 2" by (rule of_int_floor_le)
    moreover have "x - 1 < of_int \<lfloor>x\<rfloor>" by linarith
    ultimately have "(of_int \<lfloor>x / 2\<rfloor> :: real) < of_int \<lfloor>x\<rfloor>" using x2 by linarith
    then show ?thesis by simp
  qed
  moreover have "0 < \<lfloor>x\<rfloor>" using x2 by linarith
  ultimately show "(x / 2, x) \<in> measure (\<lambda>x. nat \<lfloor>x\<rfloor>)" by simp
qed

declare round_up.simps [simp del]
declare round_down.simps [simp del]

definition b64_pos :: "real \<Rightarrow> real" where
  "b64_pos x = (if x < 2 ^ 52 then round_up 0 x else round_down x)"

definition b64_round :: "real \<Rightarrow> real" where
  "b64_round x = (if x = 0 then 0 else if 0 < x then b64_pos x else - b64_pos (- x))"

text \<open>
  Floor division of floats as CPython computes it (\<^verbatim>\<open>float_floor_div\<close> in
  \<^verbatim>\<open>floatobject.c\<close>): \<^verbatim>\<open>mod = fmod(vx, wx)\<close>, which is exact and has the sign of
  \<open>vx\<close>; \<^verbatim>\<open>div = (vx - mod) / wx\<close>, two rounded operations; when the remainder is
  not zero and its sign differs from that of \<open>wx\<close>, \<^verbatim>\<open>div -= 1.0\<close>; then the
  quotient is snapped: \<^verbatim>\<open>floor(div)\<close>, plus one when \<^verbatim>\<open>div - floor(div) > 0.5\<close>.
\<close>

definition py_fmod :: "real \<Rightarrow> real \<Rightarrow> real" where
  "py_fmod x y = x - of_int (if 0 \<le> x / y then \<lfloor>x / y\<rfloor> else \<lceil>x / y\<rceil>) * y"

definition b64_floordiv :: "real \<Rightarrow> real \<Rightarrow> real" where
  "b64_floordiv x y =
     (let m = py_fmod x y;
          d0 = b64_round (b64_round (x - m) / y);
          d = (if m \<noteq> 0 \<and> ((y < 0) \<noteq> (m < 0)) then b64_round (d0 - 1) else d0)
      in if d \<noteq> 0
         then (if 1 / 2 < b64_round (d - of_int \<lfloor>d\<rfloor>) then b64_round (of_int \<lfloor>d\<rfloor> + 1)
               else of_int \<lfloor>d\<rfloor>)
         else 0)"

definition binary64 :: clock_arith where
  "binary64 =
     \<lparr> t_sub = (\<lambda>x y. b64_round (x - y)), t_floordiv = b64_floordiv,
       t_mul = (\<lambda>x y. b64_round (x * y)), t_add = (\<lambda>x y. b64_round (x + y)) \<rparr>"

text \<open>
  One iteration of \<^verbatim>\<open>while True\<close>. \<open>t_wake\<close> is the clock read by line 145,
  \<open>t_done\<close> the clock read by line 152, \<open>cyc\<close> what the outside answers to the task.
  Line 148 catches what is an \<^verbatim>\<open>Exception\<close>; anything else leaves the loop.
\<close>

record tick_env =
  t_wake :: real
  cyc :: cycle_env
  t_done :: real

definition every_step ::
  "clock_arith \<Rightarrow> real \<Rightarrow> (cycle_env \<Rightarrow> 'f worker \<Rightarrow> exn option \<times> 'f worker) \<Rightarrow> tick_env \<Rightarrow>
   real \<times> 'f worker \<Rightarrow> exn option \<times> real \<times> 'f worker" where
  "every_step ar delay task te s =
     (let next_time = fst s;
          w1 = emit [Sleep (max 0 (t_sub ar next_time (t_wake te)))] (snd s) in
      (case task (cyc te) w1 of
         (None, w2) \<Rightarrow>
           (if delay = 0 then (Some ZeroDivisionError, next_time, w2)
            else (None, advance ar delay next_time (t_done te), w2))
       | (Some e, w2) \<Rightarrow>
           (if is_Exception e then
              (let w3 = emit [LogExceptionTask e] w2 in
               if delay = 0 then (Some ZeroDivisionError, next_time, w3)
               else (None, advance ar delay next_time (t_done te), w3))
            else (Some e, next_time, w2))))"

text \<open>
  The loop over the iterations the environment describes. \<open>(None, s)\<close>: every
  iteration of the list ran and the loop goes on from \<open>s\<close>; \<open>(Some e, s)\<close>: the
  exception \<open>e\<close> left the loop, and with it the process.
\<close>

fun every_loop ::
  "clock_arith \<Rightarrow> real \<Rightarrow> (cycle_env \<Rightarrow> 'f worker \<Rightarrow> exn option \<times> 'f worker) \<Rightarrow> tick_env list \<Rightarrow>
   real \<times> 'f worker \<Rightarrow> exn option \<times> real \<times> 'f worker" where
  "every_loop ar delay task [] s = (None, s)"
| "every_loop ar delay task (te # tes) s =
     (case every_step ar delay task te s of
        (None, s') \<Rightarrow> every_loop ar delay task tes s'
      | (Some e, s') \<Rightarrow> (Some e, s'))"

text \<open>
  \<^verbatim>\<open>every\<close> reads the clock once (\<open>t0\<close>, line 143) and enters the loop;
  \<^verbatim>\<open>__init__\<close> connects and then calls \<^verbatim>\<open>every(config['repeat'], self.do_repeat)\<close>.
\<close>

definition every ::
  "clock_arith \<Rightarrow> real \<Rightarrow> (cycle_env \<Rightarrow> 'f worker \<Rightarrow> exn option \<times> 'f worker) \<Rightarrow> real \<Rightarrow> tick_env list \<Rightarrow>
   'f worker \<Rightarrow> exn option \<times> real \<times> 'f worker" where
  "every ar delay task t0 tes w = every_loop ar delay task tes (t0, w)"

text \<open>
  The object before \<^verbatim>\<open>__init__\<close> runs. The attribute \<^verbatim>\<open>mqtt_connected\<close> does not
  exist yet; \<^verbatim>\<open>mqtt_connect\<close> assigns it in both branches before anything reads it.
\<close>

definition new_worker :: "'f worker" where
  "new_worker = \<lparr> mqtt_connected = False, trace = [] \<rparr>"

definition init ::
  "clock_arith \<Rightarrow> 'f float_ops \<Rightarrow> config \<Rightarrow> bool \<Rightarrow> real \<Rightarrow> tick_env list \<Rightarrow> exn option \<times> real \<times> 'f worker" where
  "init ar ops cfg ok0 t0 tes =
     every ar (repeat cfg) (do_repeat ops cfg) t0 tes (mqtt_connect cfg ok0 new_worker)"

subsection \<open>Events of interest\<close>

fun is_connect :: "'f event \<Rightarrow> bool" where
  "is_connect (MqttConnect h p k) = True"
| "is_connect _ = False"

fun is_publish :: "'f event \<Rightarrow> bool" where
  "is_publish (MqttPublish t ms) = True"
| "is_publish _ = False"

fun is_get :: "'f event \<Rightarrow> bool" where
  "is_get (HttpGet u a) = True"
| "is_get _ = False"

subsection \<open>A configuration for concrete runs\<close>

definition example_config :: config where
  "example_config =
     \<lparr> benning_host = ''inverter'', benning_username = ''user'', benning_password = ''secret'',
       mqtt_host = ''broker'', mqtt_topic = ''solar'', repeat = 10 \<rparr>"

section \<open>Properties of the line parser\<close>

subsection \<open>Auxiliary facts\<close>

lemma parse_line_Inr:
  assumes "parse_line ops line = Inr m"
  shows "\<exists>x. 6 < length (py_split CHR '';'' line) \<and>
     scaled_value ops (py_split CHR '';'' line ! 3) (py_split CHR '';'' line ! 5) = Inr x \<and>
     m_descriptor m = py_split CHR '';'' line ! 1 \<and>
     (m_unit m, m_unit_zabbix m, m_value m) =
        normalize ops (py_split CHR '';'' line ! 1) (py_split CHR '';'' line ! 6) x"
  using assms
  by (auto simp: parse_line_def Let_def index_def split: if_splits sum.splits prod.splits)

lemma normalize_eq:
  "normalize ops d u x =
     (if u = ''mA'' then ''A'' else if u = ''h'' then ''s'' else u,
      if d \<in> set timestamp_descriptors then ''unixtime''
      else if u = ''mA'' then ''A'' else if u = ''kWh'' then ''!kWh''
      else if u = ''h'' then ''s'' else u,
      if u = ''mA'' then fmul ops x (fint ops 1000)
      else if u = ''h'' then fmul ops x (fint ops 3600) else x)"
  by (simp add: normalize_def unit_rules_def mA_rule_def kWh_rule_def h_rule_def
      descriptor_rule_def timestamp_descriptors_def Let_def)

lemma unit_rules_eq:
  "unit_rules ops (u, t, x) =
     (if u = ''mA'' then (''A'', ''A'', fmul ops x (fint ops 1000))
      else if u = ''kWh'' then (u, ''!kWh'', x)
      else if u = ''h'' then (''s'', ''s'', fmul ops x (fint ops 3600))
      else (u, t, x))"
  by (simp add: unit_rules_def mA_rule_def kWh_rule_def h_rule_def)

lemma normalize_again:
  "normalize ops d (fst (normalize ops d u x)) (snd (snd (normalize ops d u x))) =
     normalize ops d u x"
proof -
  consider "u = ''mA''" | "u = ''kWh''" | "u = ''h''" | "u \<notin> {''mA'', ''kWh'', ''h''}"
    by blast
  then show ?thesis
  proof cases
    case 1 then show ?thesis by (simp add: normalize_eq)
  next
    case 2 then show ?thesis by (simp add: normalize_eq)
  next
    case 3 then show ?thesis by (simp add: normalize_eq)
  next
    case 4 then show ?thesis by (simp add: normalize_eq)
  qed
qed

lemma rules_again:
  "descriptor_rule d (unit_rules ops (normalize ops d u x)) = normalize ops d u x"
proof -
  have dr: "\<And>a b c. descriptor_rule d (a, b, c) =
      (a, if d \<in> set timestamp_descriptors then ''unixtime'' else b, c)"
    by (simp add: descriptor_rule_def timestamp_descriptors_def Let_def)
  consider "u = ''mA''" | "u = ''kWh''" | "u = ''h''" | "u \<notin> {''mA'', ''kWh'', ''h''}"
    by blast
  then show ?thesis
  proof cases
    case 1 then show ?thesis by (simp add: normalize_eq unit_rules_eq dr)
  next
    case 2 then show ?thesis by (simp add: normalize_eq unit_rules_eq dr)
  next
    case 3 then show ?thesis by (simp add: normalize_eq unit_rules_eq dr)
  next
    case 4 then show ?thesis by (simp add: normalize_eq unit_rules_eq dr)
  qed
qed

lemmas row_eval = parse_line_def index_def scaled_value_def normalize_eq
  timestamp_descriptors_def exact_ops_def dec_float_def dec_unsigned_def
  is_digit_def digits_nat_def py_strip_def

lemma parse_line_exn: "parse_line ops l = Inl e \<Longrightarrow> e = IndexError \<or> e = ValueError"
  by (auto simp: parse_line_def index_def scaled_value_def Let_def
      split: if_splits sum.splits option.splits prod.splits)

lemma parse_lines_exn: "parse_lines ops ls = Inl e \<Longrightarrow> e = IndexError \<or> e = ValueError"
proof (induction ls)
  case Nil
  then show ?case by simp
next
  case (Cons l ls)
  then show ?case
    by (auto split: sum.splits dest: parse_line_exn)
qed

lemma parse_lines_Inr:
  "parse_lines ops ls = Inr ms \<Longrightarrow>
     length ms = length ls \<and> (\<forall>i<length ls. parse_line ops (ls ! i) = Inr (ms ! i))"
proof (induction ls arbitrary: ms)
  case Nil
  then show ?case by simp
next
  case (Cons l ls)
  from Cons.prems obtain m ms' where
    m: "parse_line ops l = Inr m" and ms': "parse_lines ops ls = Inr ms'" and eq: "ms = m # ms'"
    by (auto split: sum.splits)
  from Cons.IH [OF ms'] m eq show ?case
    by (auto simp: nth_Cons split: nat.splits)
qed

lemma parse_lines_all:
  "(\<forall>l\<in>set ls. \<exists>m. parse_line ops l = Inr m) \<Longrightarrow> \<exists>ms. parse_lines ops ls = Inr ms"
  by (induction ls) auto

lemma parse_line_empty: "parse_line ops [] = Inl IndexError"
  by (simp add: parse_line_def index_def)

lemma parse_lines_fails:
  "l \<in> set ls \<Longrightarrow> parse_line ops l = Inl e \<Longrightarrow> \<exists>e'. parse_lines ops ls = Inl e'"
  by (induction ls) (auto split: sum.splits)

subsection \<open>The multiplier\<close>

text \<open>
  Claim C1. For every line that yields a metric, with \<open>v\<close> its fields: the value
  computed by lines 181 to 184 is \<open>float(v[3]) * float(v[5])\<close> when the multiplier
  string \<open>v[5]\<close> differs from \<^verbatim>\<open>1.000000\<close>, and \<open>float(v[3])\<close> itself, with no
  product taken, when it is \<^verbatim>\<open>1.000000\<close>. The value stored in the metric is this
  number after the unit rules: times 1000 for the unit \<^verbatim>\<open>mA\<close>, times 3600 for
  \<^verbatim>\<open>h\<close>, and unchanged for every other unit.
\<close>

theorem multiplier_scaling:
  assumes "parse_line ops line = Inr m"
    and "v = py_split CHR '';'' line"
  shows "\<exists>r. pyfloat ops (v ! 3) = Some r \<and>
     (if v ! 5 \<noteq> ''1.000000''
      then \<exists>mu. pyfloat ops (v ! 5) = Some mu \<and>
             scaled_value ops (v ! 3) (v ! 5) = Inr (fmul ops r mu) \<and>
             m_value m = (if v ! 6 = ''mA'' then fmul ops (fmul ops r mu) (fint ops 1000)
                          else if v ! 6 = ''h'' then fmul ops (fmul ops r mu) (fint ops 3600)
                          else fmul ops r mu)
      else scaled_value ops (v ! 3) (v ! 5) = Inr r \<and>
             m_value m = (if v ! 6 = ''mA'' then fmul ops r (fint ops 1000)
                          else if v ! 6 = ''h'' then fmul ops r (fint ops 3600)
                          else r))"
proof -
  from parse_line_Inr [OF assms(1)] obtain x where
    sv: "scaled_value ops (v ! 3) (v ! 5) = Inr x" and
    nm: "(m_unit m, m_unit_zabbix m, m_value m) = normalize ops (v ! 1) (v ! 6) x"
    unfolding assms(2) by blast
  from nm have mv: "m_value m = (if v ! 6 = ''mA'' then fmul ops x (fint ops 1000)
      else if v ! 6 = ''h'' then fmul ops x (fint ops 3600) else x)"
    by (simp add: normalize_eq)
  show ?thesis
  proof (cases "v ! 5 = ''1.000000''")
    case True
    with sv obtain r where "pyfloat ops (v ! 3) = Some r" "x = r"
      by (auto simp: scaled_value_def split: option.splits)
    with True sv mv show ?thesis by simp
  next
    case False
    with sv obtain r mu where "pyfloat ops (v ! 3) = Some r" "pyfloat ops (v ! 5) = Some mu"
      "x = fmul ops r mu"
      by (auto simp: scaled_value_def split: option.splits)
    with False sv mv show ?thesis by simp
  qed
qed

text \<open>
  Witness for C1: the row \<^verbatim>\<open>1;d;F;5.0;x;2.000000;Hz\<close> parses, and its value is
  the product of 5 and 2.
\<close>

theorem multiplier_scaling_witness:
  "parse_line exact_ops ''1;d;F;5.0;x;2.000000;Hz'' =
     Inr \<lparr> m_id = ''1'', m_descriptor = ''d'', m_type = ''F'', m_value = 10,
           m_description = ''x'', m_unit = ''Hz'', m_unit_zabbix = ''Hz'' \<rparr> \<and>
   (\<exists>r mu. pyfloat exact_ops ''5.0'' = Some r \<and> pyfloat exact_ops ''2.000000'' = Some mu \<and>
      scaled_value exact_ops ''5.0'' ''2.000000'' = Inr (fmul exact_ops r mu) \<and>
      fmul exact_ops r mu = 10)"
proof -
  have h: "parse_line exact_ops ''1;d;F;5.0;x;2.000000;Hz'' =
     Inr \<lparr> m_id = ''1'', m_descriptor = ''d'', m_type = ''F'', m_value = 10,
           m_description = ''x'', m_unit = ''Hz'', m_unit_zabbix = ''Hz'' \<rparr>"
    by (simp add: row_eval)
  from multiplier_scaling [OF h refl] h show ?thesis
    by simp
qed

subsection \<open>The unit rules\<close>

text \<open>
  Claim C2. For the unit \<^verbatim>\<open>mA\<close> the unit rules multiply the value scaled by the
  multiplier by 1000 and set both \<open>unit\<close> and \<open>unit_zabbix\<close> to \<^verbatim>\<open>A\<close>: this is the
  state of the three variables after line 200. In the metric of such a line the
  value and the unit are these, and \<open>unit_zabbix\<close> is \<^verbatim>\<open>A\<close> unless the descriptor
  is one of the two timestamp descriptors, whose later rule (claim C3) replaces it.
  In exact arithmetic the row with raw value \<^verbatim>\<open>5.0\<close>, multiplier \<^verbatim>\<open>1.000000\<close>
  and unit \<^verbatim>\<open>mA\<close> gives the value 5000, the unit \<^verbatim>\<open>A\<close> and the tag \<^verbatim>\<open>A\<close>.
\<close>

theorem mA_rule_scales:
  "unit_rules ops (''mA'', ''mA'', x) = (''A'', ''A'', fmul ops x (fint ops 1000)) \<and>
   normalize ops d ''mA'' x =
     (''A'', (if d \<in> set timestamp_descriptors then ''unixtime'' else ''A''),
      fmul ops x (fint ops 1000)) \<and>
   (\<forall>line m. parse_line ops line = Inr m \<and> py_split CHR '';'' line ! 6 = ''mA'' \<longrightarrow>
      (\<exists>x. scaled_value ops (py_split CHR '';'' line ! 3) (py_split CHR '';'' line ! 5) = Inr x \<and>
           m_value m = fmul ops x (fint ops 1000) \<and> m_unit m = ''A'' \<and>
           m_unit_zabbix m =
             (if py_split CHR '';'' line ! 1 \<in> set timestamp_descriptors
              then ''unixtime'' else ''A''))) \<and>
   parse_line exact_ops ''1;d;F;5.0;x;1.000000;mA'' =
     Inr \<lparr> m_id = ''1'', m_descriptor = ''d'', m_type = ''F'', m_value = 5000,
           m_description = ''x'', m_unit = ''A'', m_unit_zabbix = ''A'' \<rparr>"
proof (intro conjI allI impI)
  show "unit_rules ops (''mA'', ''mA'', x) = (''A'', ''A'', fmul ops x (fint ops 1000))"
    by (simp add: unit_rules_def mA_rule_def kWh_rule_def h_rule_def)
  show "normalize ops d ''mA'' x =
     (''A'', (if d \<in> set timestamp_descriptors then ''unixtime'' else ''A''),
      fmul ops x (fint ops 1000))"
    by (simp add: normalize_eq)
  show "parse_line exact_ops ''1;d;F;5.0;x;1.000000;mA'' =
     Inr \<lparr> m_id = ''1'', m_descriptor = ''d'', m_type = ''F'', m_value = 5000,
           m_description = ''x'', m_unit = ''A'', m_unit_zabbix = ''A'' \<rparr>"
    by (simp add: parse_line_def index_def scaled_value_def normalize_eq
        timestamp_descriptors_def exact_ops_def dec_float_def dec_unsigned_def
        is_digit_def digits_nat_def py_strip_def)
next
  fix line and m :: "'a metric"
  assume a: "parse_line ops line = Inr m \<and> py_split CHR '';'' line ! 6 = ''mA''"
  from parse_line_Inr [of ops line m] a obtain x where
    "scaled_value ops (py_split CHR '';'' line ! 3) (py_split CHR '';'' line ! 5) = Inr x"
    "(m_unit m, m_unit_zabbix m, m_value m) =
        normalize ops (py_split CHR '';'' line ! 1) ''mA'' x"
    by auto
  then show "\<exists>x. scaled_value ops (py_split CHR '';'' line ! 3) (py_split CHR '';'' line ! 5) = Inr x \<and>
           m_value m = fmul ops x (fint ops 1000) \<and> m_unit m = ''A'' \<and>
           m_unit_zabbix m =
             (if py_split CHR '';'' line ! 1 \<in> set timestamp_descriptors
              then ''unixtime'' else ''A'')"
    by (auto simp: normalize_eq)
qed

text \<open>
  Witness for C2: the row \<^verbatim>\<open>1;d;F;5.0;x;2.000000;mA\<close>, whose scaled value 10
  becomes 10000.
\<close>

theorem mA_rule_scales_witness:
  "parse_line exact_ops ''1;d;F;5.0;x;2.000000;mA'' =
     Inr \<lparr> m_id = ''1'', m_descriptor = ''d'', m_type = ''F'', m_value = 10000,
           m_description = ''x'', m_unit = ''A'', m_unit_zabbix = ''A'' \<rparr> \<and>
   (\<exists>y. scaled_value exact_ops ''5.0'' ''2.000000'' = Inr y \<and>
        fmul exact_ops y (fint exact_ops 1000) = 10000)"
proof -
  have h: "parse_line exact_ops ''1;d;F;5.0;x;2.000000;mA'' =
     Inr \<lparr> m_id = ''1'', m_descriptor = ''d'', m_type = ''F'', m_value = 10000,
           m_description = ''x'', m_unit = ''A'', m_unit_zabbix = ''A'' \<rparr>"
    by (simp add: row_eval)
  have u: "py_split CHR '';'' ''1;d;F;5.0;x;2.000000;mA'' ! 6 = ''mA''"
    by simp
  from mA_rule_scales [where ops = exact_ops and d = "''d''" and x = 0] h u
  have "\<exists>y. scaled_value exact_ops (py_split CHR '';'' ''1;d;F;5.0;x;2.000000;mA'' ! 3)
               (py_split CHR '';'' ''1;d;F;5.0;x;2.000000;mA'' ! 5) = Inr y \<and>
           m_value \<lparr> m_id = ''1'', m_descriptor = ''d'', m_type = ''F'', m_value = 10000,
           m_description = ''x'', m_unit = ''A'', m_unit_zabbix = ''A'' \<rparr> = fmul exact_ops y (fint exact_ops 1000)"
    by blast
  with h show ?thesis by simp
qed

text \<open>
  Claim C3. When the descriptor is one of the two timestamp descriptors, the final
  \<open>unit_zabbix\<close> is \<^verbatim>\<open>unixtime\<close> whatever the unit rules assigned, and the unit
  and the value are the ones the unit rules produced.
\<close>

theorem timestamp_override:
  assumes "d \<in> set timestamp_descriptors"
  shows "normalize ops d u x =
           (fst (unit_rules ops (u, u, x)), ''unixtime'', snd (snd (unit_rules ops (u, u, x)))) \<and>
         (\<forall>line m. parse_line ops line = Inr m \<and> py_split CHR '';'' line ! 1 = d \<longrightarrow>
            m_unit_zabbix m = ''unixtime'' \<and>
            (\<exists>y. scaled_value ops (py_split CHR '';'' line ! 3) (py_split CHR '';'' line ! 5) = Inr y \<and>
              m_unit m = fst (unit_rules ops (py_split CHR '';'' line ! 6, py_split CHR '';'' line ! 6, y)) \<and>
              m_value m = snd (snd (unit_rules ops (py_split CHR '';'' line ! 6, py_split CHR '';'' line ! 6, y)))))"
proof (intro conjI allI impI)
  show n: "\<And>u x. normalize ops d u x =
           (fst (unit_rules ops (u, u, x)), ''unixtime'', snd (snd (unit_rules ops (u, u, x))))"
    using assms
    by (auto simp: normalize_def descriptor_rule_def timestamp_descriptors_def Let_def
        split: prod.splits)
  fix line and m :: "'a metric"
  assume a: "parse_line ops line = Inr m \<and> py_split CHR '';'' line ! 1 = d"
  from parse_line_Inr [of ops line m] a obtain y where
    y: "scaled_value ops (py_split CHR '';'' line ! 3) (py_split CHR '';'' line ! 5) = Inr y"
    "(m_unit m, m_unit_zabbix m, m_value m) =
        normalize ops d (py_split CHR '';'' line ! 6) y"
    by auto
  from y(2) show "m_unit_zabbix m = ''unixtime''" by (simp add: n)
  from y show "\<exists>y. scaled_value ops (py_split CHR '';'' line ! 3) (py_split CHR '';'' line ! 5) = Inr y \<and>
              m_unit m = fst (unit_rules ops (py_split CHR '';'' line ! 6, py_split CHR '';'' line ! 6, y)) \<and>
              m_value m = snd (snd (unit_rules ops (py_split CHR '';'' line ! 6, py_split CHR '';'' line ! 6, y)))"
    by (auto simp: n)
qed

text \<open>
  Witness for C3: the backup timestamp with the unit \<^verbatim>\<open>h\<close>: the unit rule still
  gives seconds and the factor 3600, the tag is \<^verbatim>\<open>unixtime\<close>.
\<close>

theorem timestamp_override_witness:
  "''SystemState_persistent.Global.LastSystemBackupTimestamp'' \<in> set timestamp_descriptors \<and>
   normalize exact_ops ''SystemState_persistent.Global.LastSystemBackupTimestamp'' ''h'' 2 =
     (''s'', ''unixtime'', 7200)"
proof -
  have h: "''SystemState_persistent.Global.LastSystemBackupTimestamp'' \<in> set timestamp_descriptors"
    by (simp add: timestamp_descriptors_def)
  from timestamp_override [OF h, where ops = exact_ops and u = "''h''" and x = 2] h show ?thesis
    by (simp add: unit_rules_eq exact_ops_def)
qed

text \<open>
  Claim C9. Normalization has no failing path: \<open>normalize\<close> returns a triple for
  every descriptor, unit and value, and a line with seven fields whose numbers
  convert always yields a metric. A unit other than \<^verbatim>\<open>mA\<close>, \<^verbatim>\<open>kWh\<close> and
  \<^verbatim>\<open>h\<close> passes the unit rules unchanged with \<open>unit_zabbix\<close> equal to the unit
  (the descriptor rule of claim C3 then puts \<^verbatim>\<open>unixtime\<close> for the two timestamp
  descriptors). Normalizing a normalized result again, from the start or by running
  the rules again on the three variables, changes nothing.
\<close>

theorem normalize_total_idempotent:
  "(u \<notin> {''mA'', ''kWh'', ''h''} \<longrightarrow>
      unit_rules ops (u, u, x) = (u, u, x) \<and>
      normalize ops d u x = (u, (if d \<in> set timestamp_descriptors then ''unixtime'' else u), x)) \<and>
   (normalize ops d u x = (u', t', x') \<longrightarrow>
      normalize ops d u' x' = (u', t', x') \<and>
      descriptor_rule d (unit_rules ops (u', t', x')) = (u', t', x')) \<and>
   (6 < length (py_split CHR '';'' line) \<and>
    scaled_value ops (py_split CHR '';'' line ! 3) (py_split CHR '';'' line ! 5) = Inr x \<longrightarrow>
      (\<exists>m. parse_line ops line = Inr m \<and>
           (m_unit m, m_unit_zabbix m, m_value m) =
             normalize ops (py_split CHR '';'' line ! 1) (py_split CHR '';'' line ! 6) x))"
proof (intro conjI impI)
  assume "u \<notin> {''mA'', ''kWh'', ''h''}"
  then show "unit_rules ops (u, u, x) = (u, u, x)"
    and "normalize ops d u x = (u, (if d \<in> set timestamp_descriptors then ''unixtime'' else u), x)"
    by (simp_all add: unit_rules_eq normalize_eq)
next
  assume a: "normalize ops d u x = (u', t', x')"
  from normalize_again [of ops d u x] show "normalize ops d u' x' = (u', t', x')"
    unfolding a by simp
  from rules_again [of d ops u x] show "descriptor_rule d (unit_rules ops (u', t', x')) = (u', t', x')"
    unfolding a .
next
  assume "6 < length (py_split CHR '';'' line) \<and>
    scaled_value ops (py_split CHR '';'' line ! 3) (py_split CHR '';'' line ! 5) = Inr x"
  then show "\<exists>m. parse_line ops line = Inr m \<and>
           (m_unit m, m_unit_zabbix m, m_value m) =
             normalize ops (py_split CHR '';'' line ! 1) (py_split CHR '';'' line ! 6) x"
    by (auto simp: parse_line_def index_def Let_def split: prod.splits)
qed

text \<open>
  Witness for C9: \<^verbatim>\<open>Hz\<close> passes through, \<^verbatim>\<open>mA\<close> normalizes to \<^verbatim>\<open>A\<close> and
  stays there, and a \<^verbatim>\<open>kWh\<close> row yields its metric.
\<close>

theorem normalize_total_idempotent_witness:
  "''Hz'' \<notin> {''mA'', ''kWh'', ''h''} \<and>
   normalize exact_ops ''d'' ''Hz'' 50 = (''Hz'', ''Hz'', 50) \<and>
   normalize exact_ops ''d'' ''mA'' 5 = (''A'', ''A'', 5000) \<and>
   normalize exact_ops ''d'' ''A'' 5000 = (''A'', ''A'', 5000) \<and>
   6 < length (py_split CHR '';'' ''1;d;F;5.0;x;1.000000;kWh'') \<and>
   (\<exists>m. parse_line exact_ops ''1;d;F;5.0;x;1.000000;kWh'' = Inr m \<and>
        (m_unit m, m_unit_zabbix m, m_value m) = (''kWh'', ''!kWh'', 5))"
proof -
  have a: "''Hz'' \<notin> {''mA'', ''kWh'', ''h''}" by simp
  have b: "normalize exact_ops ''d'' ''mA'' 5 = (''A'', ''A'', 5000)"
    by (simp add: normalize_eq timestamp_descriptors_def exact_ops_def)
  have c: "6 < length (py_split CHR '';'' ''1;d;F;5.0;x;1.000000;kWh'') \<and>
    scaled_value exact_ops (py_split CHR '';'' ''1;d;F;5.0;x;1.000000;kWh'' ! 3)
      (py_split CHR '';'' ''1;d;F;5.0;x;1.000000;kWh'' ! 5) = Inr 5"
    by (simp add: row_eval)
  from normalize_total_idempotent
    [where u = "''Hz''" and ops = exact_ops and x = 50 and d = "''d''"]
  have n1: "normalize exact_ops ''d'' ''Hz'' 50 = (''Hz'', ''Hz'', 50)"
    by (simp add: timestamp_descriptors_def)
  from normalize_total_idempotent
    [where u = "''mA''" and ops = exact_ops and x = 5 and d = "''d''" and u' = "''A''"
      and t' = "''A''" and x' = 5000 and line = "''1;d;F;5.0;x;1.000000;kWh''"] b c
  have n2: "normalize exact_ops ''d'' ''A'' 5000 = (''A'', ''A'', 5000)"
    and n3: "\<exists>m. parse_line exact_ops ''1;d;F;5.0;x;1.000000;kWh'' = Inr m \<and>
        (m_unit m, m_unit_zabbix m, m_value m) =
          normalize exact_ops (py_split CHR '';'' ''1;d;F;5.0;x;1.000000;kWh'' ! 1)
            (py_split CHR '';'' ''1;d;F;5.0;x;1.000000;kWh'' ! 6) 5"
    by blast+
  from n3 have n4: "\<exists>m. parse_line exact_ops ''1;d;F;5.0;x;1.000000;kWh'' = Inr m \<and>
        (m_unit m, m_unit_zabbix m, m_value m) = (''kWh'', ''!kWh'', 5)"
    by (simp add: normalize_eq timestamp_descriptors_def)
  from a b c n1 n2 n4 show ?thesis by blast
qed

subsection \<open>The lines of a body\<close>

text \<open>
  Claim C4, as stated, fails: the parser does not skip empty lines. The body made of
  two good rows separated by an empty line splits into three lines, the empty one
  has no field 3, and the parse ends with \<^verbatim>\<open>IndexError\<close>; the same two rows
  without the empty line parse to two metrics.
\<close>

theorem empty_line_counterexample:
  "py_splitlines (''1;d;F;5.0;x;1.000000;Hz'' @ [CHR 0x0A, CHR 0x0A] @ ''2;e;F;2.0;y;1.000000;h'') =
     [''1;d;F;5.0;x;1.000000;Hz'', [], ''2;e;F;2.0;y;1.000000;h''] \<and>
   parse exact_ops (''1;d;F;5.0;x;1.000000;Hz'' @ [CHR 0x0A, CHR 0x0A] @ ''2;e;F;2.0;y;1.000000;h'') =
     Inl IndexError \<and>
   parse exact_ops (''1;d;F;5.0;x;1.000000;Hz'' @ [CHR 0x0A] @ ''2;e;F;2.0;y;1.000000;h'') =
     Inr [\<lparr> m_id = ''1'', m_descriptor = ''d'', m_type = ''F'', m_value = 5,
            m_description = ''x'', m_unit = ''Hz'', m_unit_zabbix = ''Hz'' \<rparr>,
          \<lparr> m_id = ''2'', m_descriptor = ''e'', m_type = ''F'', m_value = 7200,
            m_description = ''y'', m_unit = ''s'', m_unit_zabbix = ''s'' \<rparr>]"
proof -
  have s2: "py_splitlines (''1;d;F;5.0;x;1.000000;Hz'' @ [CHR 0x0A, CHR 0x0A] @ ''2;e;F;2.0;y;1.000000;h'') =
     [''1;d;F;5.0;x;1.000000;Hz'', [], ''2;e;F;2.0;y;1.000000;h'']"
    by (simp add: py_splitlines_def line_break_def)
  have s1: "py_splitlines (''1;d;F;5.0;x;1.000000;Hz'' @ [CHR 0x0A] @ ''2;e;F;2.0;y;1.000000;h'') =
     [''1;d;F;5.0;x;1.000000;Hz'', ''2;e;F;2.0;y;1.000000;h'']"
    by (simp add: py_splitlines_def line_break_def)
  have r1: "parse_line exact_ops ''1;d;F;5.0;x;1.000000;Hz'' =
     Inr \<lparr> m_id = ''1'', m_descriptor = ''d'', m_type = ''F'', m_value = 5,
            m_description = ''x'', m_unit = ''Hz'', m_unit_zabbix = ''Hz'' \<rparr>"
    by (simp add: row_eval)
  have r2: "parse_line exact_ops ''2;e;F;2.0;y;1.000000;h'' =
     Inr \<lparr> m_id = ''2'', m_descriptor = ''e'', m_type = ''F'', m_value = 7200,
            m_description = ''y'', m_unit = ''s'', m_unit_zabbix = ''s'' \<rparr>"
    by (simp add: row_eval)
  show ?thesis
    unfolding parse_def s1 s2 by (simp add: r1 r2 parse_line_empty)
qed

text \<open>
  Claim C4, amended. The parser processes every line that \<^verbatim>\<open>splitlines\<close> returns,
  empty ones included. A parse that succeeds yields exactly one metric for each
  line, in the order of the lines, and then no line is empty; it succeeds whenever
  every line parses. An empty line raises \<^verbatim>\<open>IndexError\<close>, so a body with an empty
  line never parses; a line break at the start of the body is such an empty line.
\<close>

theorem parse_every_line:
  "(parse ops body = Inr ms \<longrightarrow>
      length ms = length (py_splitlines body) \<and>
      (\<forall>i<length ms. parse_line ops (py_splitlines body ! i) = Inr (ms ! i)) \<and>
      [] \<notin> set (py_splitlines body)) \<and>
   ((\<forall>l\<in>set (py_splitlines body). \<exists>m. parse_line ops l = Inr m) \<longrightarrow>
      (\<exists>ms. parse ops body = Inr ms)) \<and>
   parse_line ops [] = Inl IndexError \<and>
   ([] \<in> set (py_splitlines body) \<longrightarrow> (\<exists>e. parse ops body = Inl e)) \<and>
   py_splitlines (CHR 0x0A # body) = [] # py_splitlines body"
proof (intro conjI impI)
  assume a: "parse ops body = Inr ms"
  with parse_lines_Inr [of ops "py_splitlines body" ms]
  show "length ms = length (py_splitlines body)"
    and "\<forall>i<length ms. parse_line ops (py_splitlines body ! i) = Inr (ms ! i)"
    by (simp_all add: parse_def)
  show "[] \<notin> set (py_splitlines body)"
  proof
    assume "[] \<in> set (py_splitlines body)"
    from parse_lines_fails [OF this parse_line_empty, of ops] a show False
      by (simp add: parse_def)
  qed
next
  assume "\<forall>l\<in>set (py_splitlines body). \<exists>m. parse_line ops l = Inr m"
  then show "\<exists>ms. parse ops body = Inr ms"
    unfolding parse_def by (rule parse_lines_all)
next
  show "parse_line ops [] = Inl IndexError" by (rule parse_line_empty)
next
  assume "[] \<in> set (py_splitlines body)"
  from parse_lines_fails [OF this parse_line_empty]
  show "\<exists>e. parse ops body = Inl e" by (simp add: parse_def)
next
  show "py_splitlines (CHR 0x0A # body) = [] # py_splitlines body"
    by (simp add: py_splitlines_def line_break_def)
qed

text \<open>
  Witness for C4: a row followed by one line break is one line and one metric; the
  body that is a single line break is one empty line and fails.
\<close>

theorem parse_every_line_witness:
  "parse exact_ops (''1;d;F;5.0;x;1.000000;Hz'' @ [CHR 0x0A]) =
     Inr [\<lparr> m_id = ''1'', m_descriptor = ''d'', m_type = ''F'', m_value = 5,
            m_description = ''x'', m_unit = ''Hz'', m_unit_zabbix = ''Hz'' \<rparr>] \<and>
   length (py_splitlines (''1;d;F;5.0;x;1.000000;Hz'' @ [CHR 0x0A])) = 1 \<and>
   [] \<in> set (py_splitlines [CHR 0x0A]) \<and>
   (\<exists>e. parse exact_ops [CHR 0x0A] = Inl e)"
proof -
  have s1: "py_splitlines (''1;d;F;5.0;x;1.000000;Hz'' @ [CHR 0x0A]) = [''1;d;F;5.0;x;1.000000;Hz'']"
    by (simp add: py_splitlines_def line_break_def)
  have r1: "parse_line exact_ops ''1;d;F;5.0;x;1.000000;Hz'' =
     Inr \<lparr> m_id = ''1'', m_descriptor = ''d'', m_type = ''F'', m_value = 5,
            m_description = ''x'', m_unit = ''Hz'', m_unit_zabbix = ''Hz'' \<rparr>"
    by (simp add: row_eval)
  have p: "parse exact_ops (''1;d;F;5.0;x;1.000000;Hz'' @ [CHR 0x0A]) =
     Inr [\<lparr> m_id = ''1'', m_descriptor = ''d'', m_type = ''F'', m_value = 5,
            m_description = ''x'', m_unit = ''Hz'', m_unit_zabbix = ''Hz'' \<rparr>]"
    unfolding parse_def s1 by (simp add: r1)
  have e: "[] \<in> set (py_splitlines [CHR 0x0A])"
    by (simp add: py_splitlines_def line_break_def)
  from parse_every_line [where ops = exact_ops
      and body = "''1;d;F;5.0;x;1.000000;Hz'' @ [CHR 0x0A]"
      and ms = "[\<lparr> m_id = ''1'', m_descriptor = ''d'', m_type = ''F'', m_value = 5,
            m_description = ''x'', m_unit = ''Hz'', m_unit_zabbix = ''Hz'' \<rparr>]"] p
  have l: "length (py_splitlines (''1;d;F;5.0;x;1.000000;Hz'' @ [CHR 0x0A])) = 1"
    by simp
  from parse_every_line [where ops = exact_ops and body = "[CHR 0x0A]"] e
  have "\<exists>e. parse exact_ops [CHR 0x0A] = Inl e" by blast
  with p l e show ?thesis by blast
qed

section \<open>Properties of the worker\<close>

subsection \<open>Auxiliary facts\<close>

lemma do_repeat_exn: "fst (do_repeat ops cfg env w) = Some e \<Longrightarrow> is_Exception e"
  by (auto simp: do_repeat_def parse_def Let_def
      split: http_outcome.splits if_splits sum.splits dest: parse_lines_exn)

lemma every_step_caught:
  assumes "delay \<noteq> 0"
    and "task (cyc te) (emit [Sleep (max 0 (t_sub ar (fst s) (t_wake te)))] (snd s)) = (r, w2)"
    and "\<forall>e. r = Some e \<longrightarrow> is_Exception e"
  shows "every_step ar delay task te s =
           (None, advance ar delay (fst s) (t_done te),
            (case r of None \<Rightarrow> w2 | Some e \<Rightarrow> emit [LogExceptionTask e] w2))"
  using assms by (cases r) (simp_all add: every_step_def Let_def)

lemma every_step_do_repeat:
  assumes "delay \<noteq> 0"
  shows "fst (every_step ar delay (do_repeat ops cfg) te s) = None"
proof -
  obtain r w2 where
    t: "do_repeat ops cfg (cyc te) (emit [Sleep (max 0 (t_sub ar (fst s) (t_wake te)))] (snd s)) = (r, w2)"
    by (cases "do_repeat ops cfg (cyc te) (emit [Sleep (max 0 (t_sub ar (fst s) (t_wake te)))] (snd s))")
  have "\<forall>e. r = Some e \<longrightarrow> is_Exception e"
    using do_repeat_exn [of ops cfg "cyc te" "emit [Sleep (max 0 (t_sub ar (fst s) (t_wake te)))] (snd s)"] t
    by simp
  with every_step_caught [where ar = ar and task = "do_repeat ops cfg" and delay = delay and te = te
      and s = s and r = r and ?w2.0 = w2] assms t
  show ?thesis by simp
qed

lemma every_loop_do_repeat:
  assumes "delay \<noteq> 0"
  shows "fst (every_loop ar delay (do_repeat ops cfg) tes s) = None"
proof (induction tes arbitrary: s)
  case Nil
  then show ?case by simp
next
  case (Cons te tes)
  from every_step_do_repeat [OF assms, where ar = ar and ops = ops and cfg = cfg and te = te and s = s]
  obtain s' where "every_step ar delay (do_repeat ops cfg) te s = (None, s')"
    by (cases "every_step ar delay (do_repeat ops cfg) te s") auto
  with Cons.IH [of s'] show ?case by simp
qed

lemma do_repeat_non200:
  assumes "http env = Response status body" and "status \<noteq> 200"
  shows "do_repeat ops cfg env w =
           (Some (AppError (''error fetching data: '' @ body)),
            emit [LogInfoFetch (url_of cfg),
                  HttpGet (url_of cfg) (benning_username cfg, benning_password cfg)] w)"
  using assms by (simp add: do_repeat_def Let_def)

lemma do_repeat_skip:
  assumes "http env = Response 200 body" and "parse ops body = Inr ms"
    and "\<not> mqtt_connected w"
  shows "do_repeat ops cfg env w =
           (None, w\<lparr> mqtt_connected := connect_ok env,
                     trace := trace w @
                       [LogInfoFetch (url_of cfg),
                        HttpGet (url_of cfg) (benning_username cfg, benning_password cfg),
                        LogInfoProcessed (length (py_splitlines body)),
                        LogWarningNotConnected,
                        MqttClient,
                        MqttConnect (mqtt_host cfg) 1883 60] @
                       (if connect_ok env then [] else [LogErrorConnect]) \<rparr>)"
  using assms by (simp add: do_repeat_def mqtt_connect_def emit_def Let_def)

lemma do_repeat_connected:
  assumes "mqtt_connected w"
  shows "mqtt_connected (snd (do_repeat ops cfg env w)) \<and>
         (\<exists>es. trace (snd (do_repeat ops cfg env w)) = trace w @ es \<and> \<not> list_ex is_connect es)"
  using assms
  by (auto simp: do_repeat_def emit_def Let_def split: http_outcome.splits sum.splits)

lemma do_repeat_flag:
  "\<exists>es. trace (snd (do_repeat ops cfg env w)) = trace w @ es \<and>
     (if list_ex is_connect es
      then \<not> mqtt_connected w \<and> mqtt_connected (snd (do_repeat ops cfg env w)) = connect_ok env
      else mqtt_connected (snd (do_repeat ops cfg env w)) = mqtt_connected w)"
proof (cases "mqtt_connected w")
  case True
  from do_repeat_connected [OF True, of ops cfg env] True show ?thesis by auto
next
  case False
  show ?thesis
  proof (rule exI [where x = "drop (length (trace w)) (trace (snd (do_repeat ops cfg env w)))"])
    from False show "trace (snd (do_repeat ops cfg env w)) =
        trace w @ drop (length (trace w)) (trace (snd (do_repeat ops cfg env w))) \<and>
      (if list_ex is_connect (drop (length (trace w)) (trace (snd (do_repeat ops cfg env w))))
       then \<not> mqtt_connected w \<and> mqtt_connected (snd (do_repeat ops cfg env w)) = connect_ok env
       else mqtt_connected (snd (do_repeat ops cfg env w)) = mqtt_connected w)"
      by (auto simp: do_repeat_def mqtt_connect_def emit_def Let_def
          split: http_outcome.splits sum.splits)
  qed
qed

lemma every_step_connected:
  assumes "mqtt_connected (snd s)"
  shows "mqtt_connected (snd (snd (every_step ar delay (do_repeat ops cfg) te s))) \<and>
         (\<exists>es. trace (snd (snd (every_step ar delay (do_repeat ops cfg) te s))) = trace (snd s) @ es \<and>
               \<not> list_ex is_connect es)"
proof -
  let ?w1 = "emit [Sleep (max 0 (t_sub ar (fst s) (t_wake te)))] (snd s)"
  have c1: "mqtt_connected ?w1" using assms by (simp add: emit_def)
  obtain r w2 where t: "do_repeat ops cfg (cyc te) ?w1 = (r, w2)"
    by (cases "do_repeat ops cfg (cyc te) ?w1")
  from do_repeat_connected [OF c1, of ops cfg "cyc te"] t obtain es where
    c2: "mqtt_connected w2" and tr: "trace w2 = trace ?w1 @ es" and nc: "\<not> list_ex is_connect es"
    by auto
  from tr have tr': "trace w2 = trace (snd s) @ (Sleep (max 0 (t_sub ar (fst s) (t_wake te))) # es)"
    by (simp add: emit_def)
  show ?thesis
    using t c2 tr' nc
    by (cases r) (auto simp: every_step_def Let_def emit_def)
qed

lemma every_loop_connected:
  assumes "mqtt_connected (snd s)"
  shows "mqtt_connected (snd (snd (every_loop ar delay (do_repeat ops cfg) tes s))) \<and>
         (\<exists>es. trace (snd (snd (every_loop ar delay (do_repeat ops cfg) tes s))) = trace (snd s) @ es \<and>
               \<not> list_ex is_connect es)"
  using assms
proof (induction tes arbitrary: s)
  case Nil
  then show ?case by simp
next
  case (Cons te tes)
  obtain r s' where st: "every_step ar delay (do_repeat ops cfg) te s = (r, s')"
    by (cases "every_step ar delay (do_repeat ops cfg) te s")
  from every_step_connected [OF Cons.prems, where ar = ar and delay = delay and ops = ops and cfg = cfg and te = te] st obtain es where
    c: "mqtt_connected (snd s')" and tr: "trace (snd s') = trace (snd s) @ es"
    and nc: "\<not> list_ex is_connect es"
    by auto
  show ?case
  proof (cases r)
    case None
    from Cons.IH [OF c] obtain es' where
      "mqtt_connected (snd (snd (every_loop ar delay (do_repeat ops cfg) tes s')))"
      "trace (snd (snd (every_loop ar delay (do_repeat ops cfg) tes s'))) = trace (snd s') @ es'"
      "\<not> list_ex is_connect es'"
      by auto
    with None st tr nc show ?thesis by (auto simp: list_ex_iff)
  next
    case (Some e)
    with st c tr nc show ?thesis by auto
  qed
qed

lemma init_connected:
  "mqtt_connected (snd (snd (init ar ops cfg True t0 tes))) \<and>
   filter is_connect (trace (snd (snd (init ar ops cfg True t0 tes)))) =
     [MqttConnect (mqtt_host cfg) 1883 60]"
proof -
  let ?w0 = "mqtt_connect cfg True (new_worker :: 'a worker)"
  have c: "mqtt_connected (snd (t0, ?w0))"
    by (simp add: mqtt_connect_def emit_def Let_def)
  have t: "trace ?w0 = [MqttClient, MqttConnect (mqtt_host cfg) 1883 60]"
    by (simp add: mqtt_connect_def emit_def new_worker_def Let_def)
  from every_loop_connected [OF c, where ar = ar and delay = "repeat cfg" and ops = ops and cfg = cfg and tes = tes] obtain es where
    "mqtt_connected (snd (snd (every_loop ar (repeat cfg) (do_repeat ops cfg) tes (t0, ?w0))))"
    "trace (snd (snd (every_loop ar (repeat cfg) (do_repeat ops cfg) tes (t0, ?w0)))) = trace ?w0 @ es"
    "\<not> list_ex is_connect es"
    by auto
  then show ?thesis
    by (simp add: init_def every_def t list_ex_iff filter_empty_conv)
qed

lemma parse_garbage: "parse exact_ops ''garbage'' = Inl IndexError"
  by (simp add: parse_def py_splitlines_def line_break_def parse_line_def index_def)

lemma parse_one_row:
  "parse exact_ops ''1;d;F;5.0;x;1.000000;mA'' =
     Inr [\<lparr> m_id = ''1'', m_descriptor = ''d'', m_type = ''F'', m_value = 5000,
            m_description = ''x'', m_unit = ''A'', m_unit_zabbix = ''A'' \<rparr>]"
proof -
  have "py_splitlines ''1;d;F;5.0;x;1.000000;mA'' = [''1;d;F;5.0;x;1.000000;mA'']"
    by (simp add: py_splitlines_def line_break_def)
  moreover have "parse_line exact_ops ''1;d;F;5.0;x;1.000000;mA'' =
     Inr \<lparr> m_id = ''1'', m_descriptor = ''d'', m_type = ''F'', m_value = 5000,
            m_description = ''x'', m_unit = ''A'', m_unit_zabbix = ''A'' \<rparr>"
    by (simp add: row_eval)
  ultimately show ?thesis by (simp add: parse_def)
qed

subsection \<open>Failures of the task\<close>

text \<open>
  Claim C6. Every exception that \<^verbatim>\<open>do_repeat\<close> raises is an \<^verbatim>\<open>Exception\<close>, a
  parse error of a malformed row among them; the \<^verbatim>\<open>except Exception\<close> of line 148
  logs it and the iteration goes on to line 152. With a delay other than zero no
  run of the loop with \<^verbatim>\<open>do_repeat\<close> as its task, whatever the outside answers,
  ends with an exception. For any task, an \<^verbatim>\<open>Exception\<close> it raises is logged and
  the iteration completes.
\<close>

theorem task_errors_contained:
  assumes "delay \<noteq> 0"
  shows "fst (every_loop ar delay (do_repeat ops cfg) tes s) = None \<and>
         (\<forall>e. fst (do_repeat ops cfg env w) = Some e \<longrightarrow> is_Exception e) \<and>
         (\<forall>body e. http env = Response 200 body \<and> parse ops body = Inl e \<longrightarrow>
              fst (do_repeat ops cfg env w) = Some e) \<and>
         (\<forall>e w2. task (cyc te) (emit [Sleep (max 0 (t_sub ar (fst s) (t_wake te)))] (snd s)) = (Some e, w2) \<and>
              is_Exception e \<longrightarrow>
              every_step ar delay task te s =
                (None, advance ar delay (fst s) (t_done te), emit [LogExceptionTask e] w2))"
proof (intro conjI allI impI)
  show "fst (every_loop ar delay (do_repeat ops cfg) tes s) = None"
    by (rule every_loop_do_repeat [OF assms])
next
  fix e assume "fst (do_repeat ops cfg env w) = Some e"
  then show "is_Exception e" by (rule do_repeat_exn)
next
  fix body e assume "http env = Response 200 body \<and> parse ops body = Inl e"
  then show "fst (do_repeat ops cfg env w) = Some e"
    by (simp add: do_repeat_def Let_def)
next
  fix e w2
  assume a: "task (cyc te) (emit [Sleep (max 0 (t_sub ar (fst s) (t_wake te)))] (snd s)) = (Some e, w2) \<and>
              is_Exception e"
  then have "\<forall>e'. Some e = Some e' \<longrightarrow> is_Exception e'" by simp
  with every_step_caught [where ar = ar and task = task and delay = delay and te = te
      and s = s and r = "Some e" and ?w2.0 = w2] assms a
  show "every_step ar delay task te s =
                (None, advance ar delay (fst s) (t_done te), emit [LogExceptionTask e] w2)"
    by simp
qed

text \<open>
  Witness for C6: a body without seven fields makes the task raise \<^verbatim>\<open>IndexError\<close>,
  a second tick raises from \<^verbatim>\<open>requests.get\<close>; the loop passes both.
\<close>

theorem task_errors_contained_witness:
  "(10::real) \<noteq> 0 \<and>
   fst (do_repeat exact_ops example_config
          \<lparr> http = Response 200 ''garbage'', connect_ok = True, publish_raises = False \<rparr>
          new_worker) = Some IndexError \<and>
   is_Exception IndexError \<and>
   fst (every_loop exact_arith 10 (do_repeat exact_ops example_config)
          [\<lparr> t_wake = 0, cyc = \<lparr> http = Response 200 ''garbage'', connect_ok = True,
                                   publish_raises = False \<rparr>, t_done = 25 \<rparr>,
           \<lparr> t_wake = 25, cyc = \<lparr> http = RaisesRequestException, connect_ok = True,
                                    publish_raises = False \<rparr>, t_done = 31 \<rparr>]
          (0, new_worker)) = None"
proof -
  have d: "(10::real) \<noteq> 0" by simp
  have h: "http \<lparr> http = Response 200 ''garbage'', connect_ok = True, publish_raises = False \<rparr>
             = Response 200 ''garbage'' \<and> parse exact_ops ''garbage'' = Inl IndexError"
    by (simp add: parse_garbage)
  note t = task_errors_contained [OF d, where ar = exact_arith and ops = exact_ops and cfg = example_config
      and env = "\<lparr> http = Response 200 ''garbage'', connect_ok = True, publish_raises = False \<rparr>"
      and w = new_worker
      and s = "(0, new_worker)"
      and tes = "[\<lparr> t_wake = 0, cyc = \<lparr> http = Response 200 ''garbage'', connect_ok = True,
                                   publish_raises = False \<rparr>, t_done = 25 \<rparr>,
           \<lparr> t_wake = 25, cyc = \<lparr> http = RaisesRequestException, connect_ok = True,
                                    publish_raises = False \<rparr>, t_done = 31 \<rparr>]"]
  from t h have r: "fst (do_repeat exact_ops example_config
          \<lparr> http = Response 200 ''garbage'', connect_ok = True, publish_raises = False \<rparr>
          new_worker) = Some IndexError"
    by blast
  with t have "is_Exception IndexError" by blast
  with t r d show ?thesis by blast
qed

text \<open>
  Claim C7, as stated, fails: the error of a non-200 answer is caught. With the
  status 500 the iteration logs the exception and the loop goes on, with
  \<open>next_time\<close> moved to 10. The run has a delay of 10, \<open>next_time\<close> 0 and
  the clock at 1; on these whole numbers line 152 is exact in binary64, so the
  arithmetic of the run is the exact one.
\<close>

theorem non200_counterexample:
  "every exact_arith 10 (do_repeat exact_ops example_config) 0
     [\<lparr> t_wake = 0, cyc = \<lparr> http = Response 500 ''oops'', connect_ok = True,
                              publish_raises = False \<rparr>, t_done = 1 \<rparr>]
     \<lparr> mqtt_connected = True, trace = [] \<rparr> =
   (None, 10,
    \<lparr> mqtt_connected = True,
      trace = [Sleep 0,
               LogInfoFetch ''http://inverter/getallentries.cgi?firstOid=10000&lastOid=20000'',
               HttpGet ''http://inverter/getallentries.cgi?firstOid=10000&lastOid=20000''
                 (''user'', ''secret''),
               LogExceptionTask (AppError ''error fetching data: oops'')] \<rparr>)"
  by (simp add: every_def every_step_def do_repeat_def emit_def advance_def exact_arith_def
      Let_def example_config_def url_of_def)

text \<open>
  Claim C7, amended. When the device answers with a status other than 200,
  \<^verbatim>\<open>do_repeat\<close> raises the application error with the body in its message; the
  \<^verbatim>\<open>except Exception\<close> of the scheduler catches and logs it, and with a delay
  other than zero the loop continues with the next tick.
\<close>

theorem non200_caught:
  assumes "http env = Response status body" and "status \<noteq> 200"
  shows "do_repeat ops cfg env w =
           (Some (AppError (''error fetching data: '' @ body)),
            emit [LogInfoFetch (url_of cfg),
                  HttpGet (url_of cfg) (benning_username cfg, benning_password cfg)] w) \<and>
         is_Exception (AppError (''error fetching data: '' @ body)) \<and>
         (delay \<noteq> 0 \<and> cyc te = env \<longrightarrow>
            every_step ar delay (do_repeat ops cfg) te s =
              (None, advance ar delay (fst s) (t_done te),
               emit [LogExceptionTask (AppError (''error fetching data: '' @ body))]
                 (emit [LogInfoFetch (url_of cfg),
                        HttpGet (url_of cfg) (benning_username cfg, benning_password cfg)]
                    (emit [Sleep (max 0 (t_sub ar (fst s) (t_wake te)))] (snd s)))) \<and>
            fst (every_loop ar delay (do_repeat ops cfg) (te # tes) s) = None)"
proof (intro conjI impI)
  show "do_repeat ops cfg env w =
           (Some (AppError (''error fetching data: '' @ body)),
            emit [LogInfoFetch (url_of cfg),
                  HttpGet (url_of cfg) (benning_username cfg, benning_password cfg)] w)"
    by (rule do_repeat_non200 [OF assms])
  show "is_Exception (AppError (''error fetching data: '' @ body))" by simp
next
  assume a: "delay \<noteq> 0 \<and> cyc te = env"
  then have d: "delay \<noteq> 0" and c: "http (cyc te) = Response status body"
    using assms by simp_all
  show "every_step ar delay (do_repeat ops cfg) te s =
              (None, advance ar delay (fst s) (t_done te),
               emit [LogExceptionTask (AppError (''error fetching data: '' @ body))]
                 (emit [LogInfoFetch (url_of cfg),
                        HttpGet (url_of cfg) (benning_username cfg, benning_password cfg)]
                    (emit [Sleep (max 0 (t_sub ar (fst s) (t_wake te)))] (snd s))))"
    using d by (simp add: every_step_def Let_def do_repeat_non200 [OF c assms(2)])
  show "fst (every_loop ar delay (do_repeat ops cfg) (te # tes) s) = None"
    by (rule every_loop_do_repeat [OF d])
qed

text \<open>Witness for C7: the status 500 with a delay of 10.\<close>

theorem non200_caught_witness:
  "http \<lparr> http = Response 500 ''oops'', connect_ok = True, publish_raises = False \<rparr> =
     Response 500 ''oops'' \<and> (500::int) \<noteq> 200 \<and> (10::real) \<noteq> 0 \<and>
   fst (do_repeat exact_ops example_config
          \<lparr> http = Response 500 ''oops'', connect_ok = True, publish_raises = False \<rparr>
          new_worker) = Some (AppError ''error fetching data: oops'') \<and>
   fst (every_step exact_arith 10 (do_repeat exact_ops example_config)
          \<lparr> t_wake = 0, cyc = \<lparr> http = Response 500 ''oops'', connect_ok = True,
                                  publish_raises = False \<rparr>, t_done = 1 \<rparr>
          (0, new_worker)) = None"
proof -
  have h1: "http \<lparr> http = Response 500 ''oops'', connect_ok = True, publish_raises = False \<rparr> =
     Response 500 ''oops''" by simp
  have h2: "(500::int) \<noteq> 200" by simp
  have h3: "(10::real) \<noteq> 0 \<and>
     cyc \<lparr> t_wake = 0, cyc = \<lparr> http = Response 500 ''oops'', connect_ok = True,
                                  publish_raises = False \<rparr>, t_done = 1 \<rparr> =
     \<lparr> http = Response 500 ''oops'', connect_ok = True, publish_raises = False \<rparr>"
    by simp
  note t = non200_caught [OF h1 h2, where ar = exact_arith and ops = exact_ops and cfg = example_config
      and w = new_worker and delay = 10 and s = "(0, new_worker)"
      and te = "\<lparr> t_wake = 0, cyc = \<lparr> http = Response 500 ''oops'', connect_ok = True,
                                  publish_raises = False \<rparr>, t_done = 1 \<rparr>"]
  from t have a: "fst (do_repeat exact_ops example_config
          \<lparr> http = Response 500 ''oops'', connect_ok = True, publish_raises = False \<rparr>
          new_worker) = Some (AppError ''error fetching data: oops'')"
    by simp
  from t h3 have b: "fst (every_step exact_arith 10 (do_repeat exact_ops example_config)
          \<lparr> t_wake = 0, cyc = \<lparr> http = Response 500 ''oops'', connect_ok = True,
                                  publish_raises = False \<rparr>, t_done = 1 \<rparr>
          (0, new_worker)) = None"
    by simp
  from h1 h2 h3 a b show ?thesis by blast
qed

subsection \<open>Publishing\<close>

text \<open>
  Claim C8. When the fetch answers 200, the body parses and the flag
  \<open>mqtt_connected\<close> is false, \<^verbatim>\<open>do_repeat\<close> returns without an exception; the
  events it adds are the two of the fetch, the count of lines, the warning, one new
  client with one connect call and, when that call raises, its error record. No
  publish call is among them, and the flag becomes the outcome of the connect call.
\<close>

theorem publish_skipped_when_disconnected:
  assumes "http env = Response 200 body" and "parse ops body = Inr ms"
    and "\<not> mqtt_connected w"
  shows "fst (do_repeat ops cfg env w) = None \<and>
         trace (snd (do_repeat ops cfg env w)) =
           trace w @
             [LogInfoFetch (url_of cfg),
              HttpGet (url_of cfg) (benning_username cfg, benning_password cfg),
              LogInfoProcessed (length (py_splitlines body)),
              LogWarningNotConnected,
              MqttClient,
              MqttConnect (mqtt_host cfg) 1883 60] @
             (if connect_ok env then [] else [LogErrorConnect]) \<and>
         filter is_publish (drop (length (trace w)) (trace (snd (do_repeat ops cfg env w)))) = [] \<and>
         filter is_connect (drop (length (trace w)) (trace (snd (do_repeat ops cfg env w)))) =
           [MqttConnect (mqtt_host cfg) 1883 60] \<and>
         mqtt_connected (snd (do_repeat ops cfg env w)) = connect_ok env"
  by (simp add: do_repeat_skip [OF assms])

text \<open>
  Witness for C8: a fresh worker, one good row, and a broker that refuses the
  connection.
\<close>

theorem publish_skipped_when_disconnected_witness:
  "\<not> mqtt_connected (new_worker :: real worker) \<and>
   do_repeat exact_ops example_config
     \<lparr> http = Response 200 ''1;d;F;5.0;x;1.000000;mA'', connect_ok = False,
       publish_raises = False \<rparr> new_worker =
   (None,
    \<lparr> mqtt_connected = False,
      trace = [LogInfoFetch ''http://inverter/getallentries.cgi?firstOid=10000&lastOid=20000'',
               HttpGet ''http://inverter/getallentries.cgi?firstOid=10000&lastOid=20000''
                 (''user'', ''secret''),
               LogInfoProcessed 1,
               LogWarningNotConnected,
               MqttClient,
               MqttConnect ''broker'' 1883 60,
               LogErrorConnect] \<rparr>)"
proof -
  have h1: "http \<lparr> http = Response 200 ''1;d;F;5.0;x;1.000000;mA'', connect_ok = False,
       publish_raises = False \<rparr> = Response 200 ''1;d;F;5.0;x;1.000000;mA''"
    by simp
  have h3: "\<not> mqtt_connected (new_worker :: real worker)"
    by (simp add: new_worker_def)
  have l: "length (py_splitlines ''1;d;F;5.0;x;1.000000;mA'') = 1"
    by (simp add: py_splitlines_def line_break_def)
  note t = publish_skipped_when_disconnected [OF h1 parse_one_row h3, where cfg = example_config]
  have "do_repeat exact_ops example_config
     \<lparr> http = Response 200 ''1;d;F;5.0;x;1.000000;mA'', connect_ok = False,
       publish_raises = False \<rparr> new_worker =
     (fst (do_repeat exact_ops example_config
     \<lparr> http = Response 200 ''1;d;F;5.0;x;1.000000;mA'', connect_ok = False,
       publish_raises = False \<rparr> new_worker),
      \<lparr> mqtt_connected = mqtt_connected (snd (do_repeat exact_ops example_config
     \<lparr> http = Response 200 ''1;d;F;5.0;x;1.000000;mA'', connect_ok = False,
       publish_raises = False \<rparr> new_worker)),
        trace = trace (snd (do_repeat exact_ops example_config
     \<lparr> http = Response 200 ''1;d;F;5.0;x;1.000000;mA'', connect_ok = False,
       publish_raises = False \<rparr> new_worker)) \<rparr>)"
    by (simp add: prod_eq_iff)
  also have "\<dots> = (None,
    \<lparr> mqtt_connected = False,
      trace = [LogInfoFetch ''http://inverter/getallentries.cgi?firstOid=10000&lastOid=20000'',
               HttpGet ''http://inverter/getallentries.cgi?firstOid=10000&lastOid=20000''
                 (''user'', ''secret''),
               LogInfoProcessed 1,
               LogWarningNotConnected,
               MqttClient,
               MqttConnect ''broker'' 1883 60,
               LogErrorConnect] \<rparr>)"
    using t by (simp add: l new_worker_def example_config_def url_of_def)
  finally show ?thesis using h3 by blast
qed

text \<open>
  Claim C10. \<^verbatim>\<open>mqtt_connect\<close> sets the flag to the outcome of its connect call.
  A call of \<^verbatim>\<open>do_repeat\<close> changes the flag only when it makes a connect call, which
  it does only while the flag is false; otherwise, and in particular when it
  publishes, whether the publish call raises or not, the flag is as before. Once
  the flag is true it is true after every later iteration of the loop, and the loop
  makes no connect call any more: when the connect call of \<^verbatim>\<open>__init__\<close> succeeds,
  it is the only one of the whole run.
\<close>

theorem connected_flag_written_by_connect:
  "mqtt_connected (mqtt_connect cfg ok w) = ok \<and>
   (\<exists>es. trace (snd (do_repeat ops cfg env w)) = trace w @ es \<and>
      (if list_ex is_connect es
       then \<not> mqtt_connected w \<and> mqtt_connected (snd (do_repeat ops cfg env w)) = connect_ok env
       else mqtt_connected (snd (do_repeat ops cfg env w)) = mqtt_connected w)) \<and>
   (mqtt_connected (snd s) \<longrightarrow>
      mqtt_connected (snd (snd (every_loop ar delay (do_repeat ops cfg) tes s))) \<and>
      (\<exists>es. trace (snd (snd (every_loop ar delay (do_repeat ops cfg) tes s))) = trace (snd s) @ es \<and>
            \<not> list_ex is_connect es)) \<and>
   mqtt_connected (snd (snd (init ar ops cfg True t0 tes))) \<and>
   filter is_connect (trace (snd (snd (init ar ops cfg True t0 tes)))) =
     [MqttConnect (mqtt_host cfg) 1883 60]"
proof (intro conjI impI)
  show "mqtt_connected (mqtt_connect cfg ok w) = ok"
    by (simp add: mqtt_connect_def emit_def Let_def)
  show "mqtt_connected (snd (snd (init ar ops cfg True t0 tes)))"
    and "filter is_connect (trace (snd (snd (init ar ops cfg True t0 tes)))) =
     [MqttConnect (mqtt_host cfg) 1883 60]"
    using init_connected [where ar = ar and ops = ops and cfg = cfg and ?t0.0 = t0 and tes = tes] by simp_all
  show "\<exists>es. trace (snd (do_repeat ops cfg env w)) = trace w @ es \<and>
      (if list_ex is_connect es
       then \<not> mqtt_connected w \<and> mqtt_connected (snd (do_repeat ops cfg env w)) = connect_ok env
       else mqtt_connected (snd (do_repeat ops cfg env w)) = mqtt_connected w)"
    by (rule do_repeat_flag)
next
  assume a: "mqtt_connected (snd s)"
  from every_loop_connected [OF a, where ar = ar and delay = delay and ops = ops and cfg = cfg and tes = tes]
  show "mqtt_connected (snd (snd (every_loop ar delay (do_repeat ops cfg) tes s)))"
    and "\<exists>es. trace (snd (snd (every_loop ar delay (do_repeat ops cfg) tes s))) = trace (snd s) @ es \<and>
            \<not> list_ex is_connect es"
    by blast+
qed

text \<open>
  Witness for C10: the first connect succeeds; a publish that raises and a fetch that
  cannot connect follow, and the flag is still true.
\<close>

theorem connected_flag_written_by_connect_witness:
  "mqtt_connected (snd (0::real, mqtt_connect example_config True (new_worker :: real worker))) \<and>
   mqtt_connected (snd (snd (every_loop exact_arith 10 (do_repeat exact_ops example_config)
     [\<lparr> t_wake = 0, cyc = \<lparr> http = Response 200 ''1;d;F;5.0;x;1.000000;mA'',
                              connect_ok = False, publish_raises = True \<rparr>, t_done = 1 \<rparr>,
      \<lparr> t_wake = 2, cyc = \<lparr> http = RaisesConnectionError,
                              connect_ok = False, publish_raises = True \<rparr>, t_done = 12 \<rparr>]
     (0, mqtt_connect example_config True new_worker))))"
proof -
  have h: "mqtt_connected (snd (0::real, mqtt_connect example_config True (new_worker :: real worker)))"
    by (simp add: mqtt_connect_def emit_def Let_def)
  from connected_flag_written_by_connect [where ar = exact_arith and s = "(0::real, mqtt_connect example_config True (new_worker :: real worker))"
      and delay = 10 and ops = exact_ops and cfg = example_config
      and tes = "[\<lparr> t_wake = 0, cyc = \<lparr> http = Response 200 ''1;d;F;5.0;x;1.000000;mA'',
                              connect_ok = False, publish_raises = True \<rparr>, t_done = 1 \<rparr>,
      \<lparr> t_wake = 2, cyc = \<lparr> http = RaisesConnectionError,
                              connect_ok = False, publish_raises = True \<rparr>, t_done = 12 \<rparr>]"] h
  show ?thesis by blast
qed

section \<open>Properties of the scheduler\<close>

subsection \<open>Rounding on a grid\<close>

text \<open>
  A number that is a multiple of \<open>2^-g\<close> and at most \<open>2^53\<close> such multiples in
  magnitude is a binary64 number: rounding leaves it as it is. When the operands
  of line 152 lie on such a grid and are small enough, every operation of the line
  is therefore exact.
\<close>

lemma rne_Ints: "x \<in> \<int> \<Longrightarrow> of_int (rne x) = x"
  by (auto simp: rne_def elim!: Ints_cases)

lemma round_up_grid:
  "x * 2 ^ j \<in> \<int> \<Longrightarrow> x * 2 ^ j \<le> 2 ^ 53 \<Longrightarrow> k + j \<le> 1074 \<Longrightarrow> round_up k x = x"
proof (induction k x arbitrary: j rule: round_up.induct)
  case (1 k x)
  show ?case
  proof (cases "x < 2 ^ 52 \<and> k < 1074")
    case True
    have "round_up (Suc k) (2 * x) = 2 * x"
    proof (cases j)
      case 0
      with "1.prems" have xi: "x \<in> \<int>" by simp
      then have a: "2 * x * 2 ^ 0 \<in> \<int>" by simp
      from True have b: "2 * x * 2 ^ 0 \<le> 2 ^ 53" by simp
      from True have c: "Suc k + 0 \<le> 1074" by simp
      from "1.IH" [OF True a b c] show ?thesis .
    next
      case (Suc j')
      with "1.prems" have a: "2 * x * 2 ^ j' \<in> \<int>" and b: "2 * x * 2 ^ j' \<le> 2 ^ 53"
        and c: "Suc k + j' \<le> 1074"
        by (simp_all add: mult.assoc mult.left_commute)
      from "1.IH" [OF True a b c] show ?thesis .
    qed
    moreover have "round_up k x = round_up (Suc k) (2 * x) / 2"
      by (subst round_up.simps) (rule if_P [OF True])
    ultimately show ?thesis by simp
  next
    case False
    have "x \<in> \<int>"
    proof (cases j)
      case 0
      with "1.prems" show ?thesis by simp
    next
      case (Suc j')
      with "1.prems" False have x52: "2 ^ 52 \<le> x" by auto
      have "j' = 0"
      proof (rule ccontr)
        assume "j' \<noteq> 0"
        then have "(2::real) ^ 2 \<le> 2 ^ j" using Suc
          by (intro power_increasing) simp_all
        then have "4 * x \<le> x * 2 ^ j" using x52 by (simp add: mult.commute mult_right_mono)
        with "1.prems"(2) have "4 * x \<le> 2 ^ 53" by linarith
        with x52 show False by simp
      qed
      with Suc "1.prems" have "x * 2 \<le> 2 ^ 53" by simp
      with x52 have "x = 2 ^ 52" by simp
      then show ?thesis by simp
    qed
    moreover have "round_up k x = of_int (rne x)"
      by (subst round_up.simps) (rule if_not_P [OF False])
    ultimately show ?thesis by (simp add: rne_Ints)
  qed
qed

lemma b64_pos_grid:
  assumes "0 < x" and "x * 2 ^ g \<in> \<int>" and "x * 2 ^ g \<le> 2 ^ 53" and "g \<le> 1074"
  shows "b64_pos x = x"
proof (cases "x < 2 ^ 52")
  case True
  with round_up_grid [of x g 0] assms show ?thesis by (simp add: b64_pos_def)
next
  case False
  have g1: "(1::real) \<le> 2 ^ g" by simp
  with assms(1) have "x \<le> x * 2 ^ g" by simp
  with assms(3) have x53: "x \<le> 2 ^ 53" by linarith
  have xi: "x \<in> \<int>"
  proof (cases g)
    case 0
    with assms(2) show ?thesis by simp
  next
    case (Suc g')
    have "g' = 0"
    proof (rule ccontr)
      assume "g' \<noteq> 0"
      then have "(2::real) ^ 2 \<le> 2 ^ g" using Suc
        by (intro power_increasing) simp_all
      then have "4 * x \<le> x * 2 ^ g" using assms(1) by (simp add: mult.commute mult_right_mono)
      with assms(3) have "4 * x \<le> 2 ^ 53" by linarith
      with False show False by simp
    qed
    with Suc assms(3) have "x * 2 \<le> 2 ^ 53" by simp
    with False have "x = 2 ^ 52" by simp
    then show ?thesis by simp
  qed
  show ?thesis
  proof (cases "x = 2 ^ 53")
    case True
    have "round_down (2 ^ 53) = 2 ^ 53"
      by (simp add: round_down.simps rne_def)
    with True show ?thesis by (simp add: b64_pos_def)
  next
    case ne: False
    with x53 have "\<not> 2 ^ 53 \<le> x" by simp
    with False xi show ?thesis
      by (simp add: b64_pos_def round_down.simps [of x] rne_Ints)
  qed
qed

lemma b64_round_grid:
  assumes "x * 2 ^ g \<in> \<int>" and "\<bar>x\<bar> * 2 ^ g \<le> 2 ^ 53" and "g \<le> 1074"
  shows "b64_round x = x"
proof -
  consider "x = 0" | "0 < x" | "x < 0" by linarith
  then show ?thesis
  proof cases
    case 1
    then show ?thesis by (simp add: b64_round_def)
  next
    case 2
    with b64_pos_grid [of x g] assms show ?thesis by (simp add: b64_round_def)
  next
    case 3
    from assms(1) have "- (x * 2 ^ g) \<in> \<int>" by (rule Ints_minus)
    then have "- x * 2 ^ g \<in> \<int>" by simp
    with b64_pos_grid [of "- x" g] 3 assms show ?thesis by (simp add: b64_round_def)
  qed
qed

lemma floor_mult_bounds:
  assumes "0 < (y::real)"
  shows "of_int \<lfloor>x / y\<rfloor> * y \<le> x" and "x < of_int \<lfloor>x / y\<rfloor> * y + y"
proof -
  have "of_int \<lfloor>x / y\<rfloor> * y \<le> x / y * y"
    using assms by (intro mult_right_mono) simp_all
  also have "x / y * y = x" using assms by simp
  finally show "of_int \<lfloor>x / y\<rfloor> * y \<le> x" .
  have "x / y < of_int \<lfloor>x / y\<rfloor> + 1" by linarith
  then have "x / y * y < (of_int \<lfloor>x / y\<rfloor> + 1) * y"
    using assms by (simp only: mult_less_cancel_right_pos)
  moreover have "x / y * y = x" using assms by simp
  ultimately show "x < of_int \<lfloor>x / y\<rfloor> * y + y" by (simp add: algebra_simps)
qed

lemma grid_pos_ge:
  assumes "0 < (y::real)" and "y * 2 ^ g \<in> \<int>"
  shows "1 \<le> y * 2 ^ g"
proof -
  from assms(2) obtain n :: int where n: "y * 2 ^ g = of_int n" by (auto elim: Ints_cases)
  from assms(1) have "0 < y * 2 ^ g" by simp
  with n have "0 < n" by simp
  then have "1 \<le> n" by simp
  then have "(1::real) \<le> of_int n" by simp
  with n show ?thesis by simp
qed

lemma trunc_abs:
  "\<bar>of_int (if 0 \<le> z then \<lfloor>z\<rfloor> else \<lceil>z\<rceil>) :: real\<bar> \<le> \<bar>z\<bar>"
proof (cases "0 \<le> z")
  case True
  then have "(0::real) \<le> of_int \<lfloor>z\<rfloor>" by simp
  moreover have "of_int \<lfloor>z\<rfloor> \<le> z" by (rule of_int_floor_le)
  ultimately show ?thesis using True by simp
next
  case False
  then have "\<lceil>z\<rceil> \<le> 0" by (simp add: ceiling_le_iff)
  then have "of_int \<lceil>z\<rceil> \<le> (0::real)" by simp
  moreover have "z \<le> of_int \<lceil>z\<rceil>" by (rule le_of_int_ceiling)
  ultimately show ?thesis using False by simp
qed

lemma b64_floordiv_grid:
  assumes y: "0 < y" and gx: "x * 2 ^ g \<in> \<int>" and gy: "y * 2 ^ g \<in> \<int>"
    and bx: "\<bar>x\<bar> * 2 ^ g \<le> 2 ^ 52" and g: "g \<le> 1074"
  shows "b64_floordiv x y = of_int \<lfloor>x / y\<rfloor>"
proof -
  define q :: int where "q = (if 0 \<le> x / y then \<lfloor>x / y\<rfloor> else \<lceil>x / y\<rceil>)"
  define m where "m = x - of_int q * y"
  have m: "py_fmod x y = m" by (simp add: py_fmod_def m_def q_def)
  have xm: "x - m = of_int q * y" by (simp add: m_def)
  have qabs: "\<bar>of_int q :: real\<bar> \<le> \<bar>x / y\<bar>"
    unfolding q_def by (rule trunc_abs)
  have qy: "\<bar>of_int q * y\<bar> \<le> \<bar>x\<bar>"
  proof -
    have "\<bar>of_int q * y\<bar> = \<bar>of_int q\<bar> * y" using y by (simp add: abs_mult)
    also have "\<dots> \<le> \<bar>x / y\<bar> * y" using qabs y by (intro mult_right_mono) simp_all
    also have "\<dots> = \<bar>x\<bar>" using y by (simp add: abs_mult)
    finally show ?thesis .
  qed
  have r1: "b64_round (of_int q * y) = of_int q * y"
  proof (rule b64_round_grid [OF _ _ g])
    have "of_int q * (y * 2 ^ g) \<in> \<int>" by (rule Ints_mult [OF Ints_of_int gy])
    then show "of_int q * y * 2 ^ g \<in> \<int>" by (simp add: mult.assoc)
    have "\<bar>of_int q * y\<bar> * 2 ^ g \<le> \<bar>x\<bar> * 2 ^ g" using qy by (intro mult_right_mono) simp_all
    moreover have "(2::real) ^ 52 \<le> 2 ^ 53" by simp
    ultimately show "\<bar>of_int q * y\<bar> * 2 ^ g \<le> 2 ^ 53" using bx by linarith
  qed
  have q52: "\<bar>of_int q :: real\<bar> \<le> 2 ^ 52"
  proof -
    have "\<bar>of_int q :: real\<bar> * 1 \<le> \<bar>of_int q\<bar> * (y * 2 ^ g)"
      using grid_pos_ge [OF y gy] by (intro mult_left_mono) simp_all
    also have "\<dots> = \<bar>of_int q * y\<bar> * 2 ^ g" using y by (simp add: abs_mult)
    also have "\<dots> \<le> \<bar>x\<bar> * 2 ^ g" using qy by (intro mult_right_mono) simp_all
    finally show ?thesis using bx by simp
  qed
  have r2: "b64_round (of_int q) = of_int q"
    using b64_round_grid [of "of_int q" 0] q52 by simp
  have r3: "b64_round (of_int q - 1) = of_int q - 1"
  proof -
    have "\<bar>of_int q - 1 :: real\<bar> \<le> \<bar>of_int q\<bar> + 1" by simp
    with q52 have "\<bar>of_int q - 1 :: real\<bar> \<le> 2 ^ 53" by simp
    moreover have "(of_int q - 1 :: real) \<in> \<int>" by simp
    ultimately show ?thesis using b64_round_grid [of "of_int q - 1" 0] by simp
  qed
  have d0: "b64_round (b64_round (x - m) / y) = of_int q"
    using y by (simp add: xm r1 r2)
  define d :: int where "d = (if m \<noteq> 0 \<and> m < 0 then q - 1 else q)"
  have dd: "(if m \<noteq> 0 \<and> ((y < 0) \<noteq> (m < 0)) then b64_round (of_int q - 1) else of_int q) =
      (of_int d :: real)"
    using y by (simp add: d_def r3)
  have res: "b64_floordiv x y = of_int d"
    unfolding b64_floordiv_def Let_def m d0 dd
    by (simp add: b64_round_def)
  have "d = \<lfloor>x / y\<rfloor>"
  proof (cases "0 \<le> x / y")
    case True
    then have q: "q = \<lfloor>x / y\<rfloor>" by (simp add: q_def)
    from floor_mult_bounds(1) [OF y, of x] have "0 \<le> m" by (simp add: m_def q)
    then show ?thesis by (simp add: d_def q)
  next
    case False
    then have q: "q = \<lceil>x / y\<rceil>" by (simp add: q_def)
    show ?thesis
    proof (cases "m < 0")
      case True
      then have "x < of_int \<lceil>x / y\<rceil> * y" by (simp add: m_def q)
      then have "x / y < of_int \<lceil>x / y\<rceil>" using y by (simp add: pos_divide_less_eq)
      then have "\<lfloor>x / y\<rfloor> = \<lceil>x / y\<rceil> - 1" by linarith
      with True show ?thesis by (simp add: d_def q)
    next
      case nm: False
      then have "of_int \<lceil>x / y\<rceil> * y \<le> x" by (simp add: m_def q)
      then have "of_int \<lceil>x / y\<rceil> \<le> x / y" using y by (simp only: pos_le_divide_eq)
      then have "\<lceil>x / y\<rceil> \<le> \<lfloor>x / y\<rfloor>" by (simp only: le_floor_iff)
      moreover have "\<lfloor>x / y\<rfloor> \<le> \<lceil>x / y\<rceil>" by (rule floor_le_ceiling)
      ultimately have "\<lfloor>x / y\<rfloor> = \<lceil>x / y\<rceil>" by simp
      with nm show ?thesis by (simp add: d_def q)
    qed
  qed
  with res show ?thesis by simp
qed

lemma advance_binary64_grid:
  assumes d: "0 < delay" and gd: "delay * 2 ^ g \<in> \<int>" and gn: "next_time * 2 ^ g \<in> \<int>"
    and gw: "now * 2 ^ g \<in> \<int>" and g: "g \<le> 1074"
    and bs: "\<bar>now - next_time\<bar> * 2 ^ g \<le> 2 ^ 52" and bd: "delay * 2 ^ g \<le> 2 ^ 52"
    and bn: "(\<bar>now\<bar> + delay) * 2 ^ g \<le> 2 ^ 53"
  shows "advance binary64 delay next_time now =
           next_time + (of_int \<lfloor>(now - next_time) / delay\<rfloor> * delay + delay)"
proof -
  let ?s = "now - next_time"
  let ?k = "\<lfloor>?s / delay\<rfloor>"
  have gs: "?s * 2 ^ g \<in> \<int>"
  proof -
    from gw gn have "now * 2 ^ g - next_time * 2 ^ g \<in> \<int>" by (rule Ints_diff)
    then show ?thesis by (simp add: algebra_simps)
  qed
  have r1: "b64_round ?s = ?s"
    using b64_round_grid [OF gs _ g] bs by simp
  have r2: "b64_floordiv ?s delay = of_int ?k"
    by (rule b64_floordiv_grid [OF d gs gd bs g])
  note fb = floor_mult_bounds [OF d, of ?s]
  have sum52: "(\<bar>?s\<bar> + delay) * 2 ^ g \<le> 2 ^ 53"
  proof -
    have "(\<bar>?s\<bar> + delay) * 2 ^ g = \<bar>?s\<bar> * 2 ^ g + delay * 2 ^ g" by (simp add: algebra_simps)
    also have "\<dots> \<le> 2 ^ 52 + 2 ^ 52" using bs bd by (rule add_mono)
    finally show ?thesis by simp
  qed
  have gk: "of_int ?k * delay * 2 ^ g \<in> \<int>"
  proof -
    have "of_int ?k * (delay * 2 ^ g) \<in> \<int>" by (rule Ints_mult [OF Ints_of_int gd])
    then show ?thesis by (simp add: mult.assoc)
  qed
  have r3: "b64_round (of_int ?k * delay) = of_int ?k * delay"
  proof (rule b64_round_grid [OF gk _ g])
    have "\<bar>of_int ?k * delay\<bar> \<le> \<bar>?s\<bar> + delay" using fb d by linarith
    then have "\<bar>of_int ?k * delay\<bar> * 2 ^ g \<le> (\<bar>?s\<bar> + delay) * 2 ^ g"
      by (intro mult_right_mono) simp_all
    with sum52 show "\<bar>of_int ?k * delay\<bar> * 2 ^ g \<le> 2 ^ 53" by linarith
  qed
  have gi: "(of_int ?k * delay + delay) * 2 ^ g \<in> \<int>"
  proof -
    from gk gd have "of_int ?k * delay * 2 ^ g + delay * 2 ^ g \<in> \<int>" by (rule Ints_add)
    then show ?thesis by (simp add: algebra_simps)
  qed
  have r4: "b64_round (of_int ?k * delay + delay) = of_int ?k * delay + delay"
  proof (rule b64_round_grid [OF gi _ g])
    have "\<bar>of_int ?k * delay + delay\<bar> \<le> \<bar>?s\<bar> + delay" using fb d by linarith
    then have "\<bar>of_int ?k * delay + delay\<bar> * 2 ^ g \<le> (\<bar>?s\<bar> + delay) * 2 ^ g"
      by (intro mult_right_mono) simp_all
    with sum52 show "\<bar>of_int ?k * delay + delay\<bar> * 2 ^ g \<le> 2 ^ 53" by linarith
  qed
  have gf: "(next_time + (of_int ?k * delay + delay)) * 2 ^ g \<in> \<int>"
  proof -
    from gn gi have "next_time * 2 ^ g + (of_int ?k * delay + delay) * 2 ^ g \<in> \<int>"
      by (rule Ints_add)
    then show ?thesis by (simp add: algebra_simps)
  qed
  have r5: "b64_round (next_time + (of_int ?k * delay + delay)) =
      next_time + (of_int ?k * delay + delay)"
  proof (rule b64_round_grid [OF gf _ g])
    have "\<bar>next_time + (of_int ?k * delay + delay)\<bar> \<le> \<bar>now\<bar> + delay" using fb d by linarith
    then have "\<bar>next_time + (of_int ?k * delay + delay)\<bar> * 2 ^ g \<le> (\<bar>now\<bar> + delay) * 2 ^ g"
      by (intro mult_right_mono) simp_all
    with bn show "\<bar>next_time + (of_int ?k * delay + delay)\<bar> * 2 ^ g \<le> 2 ^ 53" by linarith
  qed
  show ?thesis
    by (simp add: advance_def binary64_def r1 r2 r3 r4 r5)
qed

lemma boundary_past:
  assumes "0 < delay"
  shows "(next_time + of_int j * delay \<le> now) = (j \<le> \<lfloor>(now - next_time) / delay\<rfloor>)"
proof -
  have "(next_time + of_int j * delay \<le> now) = (of_int j * delay \<le> now - next_time)"
    by auto
  also have "\<dots> = (of_int j \<le> (now - next_time) / delay)"
    using assms by (simp add: pos_le_divide_eq)
  also have "\<dots> = (j \<le> \<lfloor>(now - next_time) / delay\<rfloor>)"
    by (simp add: le_floor_iff)
  finally show ?thesis .
qed

lemma advance_exact:
  "advance exact_arith delay next_time now =
     next_time + (of_int \<lfloor>(now - next_time) / delay\<rfloor> * delay + delay)"
  by (simp add: advance_def exact_arith_def)

subsection \<open>One task run for each iteration\<close>

lemma do_repeat_one_get:
  "filter is_get (trace (snd (do_repeat ops cfg env w))) =
     filter is_get (trace w) @
       [HttpGet (url_of cfg) (benning_username cfg, benning_password cfg)]"
  by (auto simp: do_repeat_def mqtt_connect_def emit_def Let_def
      split: http_outcome.splits sum.splits)

lemma every_step_one_get:
  "filter is_get (trace (snd (snd (every_step ar delay (do_repeat ops cfg) te s)))) =
     filter is_get (trace (snd s)) @
       [HttpGet (url_of cfg) (benning_username cfg, benning_password cfg)]"
proof -
  let ?w1 = "emit [Sleep (max 0 (t_sub ar (fst s) (t_wake te)))] (snd s)"
  obtain r w2 where t: "do_repeat ops cfg (cyc te) ?w1 = (r, w2)"
    by (cases "do_repeat ops cfg (cyc te) ?w1")
  from do_repeat_one_get [of ops cfg "cyc te" ?w1] t
  have "filter is_get (trace w2) =
     filter is_get (trace (snd s)) @
       [HttpGet (url_of cfg) (benning_username cfg, benning_password cfg)]"
    by (simp add: emit_def)
  with t show ?thesis
    by (cases r) (auto simp: every_step_def Let_def emit_def)
qed

lemma every_loop_gets:
  assumes "delay \<noteq> 0"
  shows "length (filter is_get (trace (snd (snd (every_loop ar delay (do_repeat ops cfg) tes s))))) =
           length (filter is_get (trace (snd s))) + length tes"
proof (induction tes arbitrary: s)
  case Nil
  then show ?case by simp
next
  case (Cons te tes)
  from every_step_do_repeat [OF assms, where ar = ar and ops = ops and cfg = cfg and te = te and s = s]
  obtain s' where st: "every_step ar delay (do_repeat ops cfg) te s = (None, s')"
    by (cases "every_step ar delay (do_repeat ops cfg) te s") auto
  from every_step_one_get [of ar delay ops cfg te s] st
  have "length (filter is_get (trace (snd s'))) = length (filter is_get (trace (snd s))) + 1"
    by simp
  with Cons.IH [of s'] st show ?case by simp
qed

subsection \<open>The next fire time\<close>

text \<open>
  Claim C5, as stated, fails: the new \<open>next_time\<close> is not always strictly later
  than the clock. The delay \<^verbatim>\<open>0.1\<close> is the binary64 number
  \<open>3602879701896397 / 2^55\<close>. With \<open>next_time\<close> 0.0 and the clock at 1.0, line 152
  computes 1.0: nine whole intervals, \<open>9 * 0.1\<close> rounded, plus \<open>0.1\<close>, rounded to
  1.0. The same happens with the clock readings 1700000134.3642442 and
  1700000139.1642442 (both written as the binary64 numbers they are): the new
  \<open>next_time\<close> equals the second reading.
\<close>

theorem line152_rounding_counterexample:
  "b64_round (1 / 10) = 3602879701896397 / 36028797018963968 \<and>
   (0::real) < 3602879701896397 / 36028797018963968 \<and>
   advance binary64 (3602879701896397 / 36028797018963968) 0 1 = 1 \<and>
   \<not> 1 < advance binary64 (3602879701896397 / 36028797018963968) 0 1 \<and>
   b64_round (7130317363564487 / 4194304) = 7130317363564487 / 4194304 \<and>
   b64_round (3565158691848573 / 2097152) = 3565158691848573 / 2097152 \<and>
   advance binary64 (3602879701896397 / 36028797018963968)
     (7130317363564487 / 4194304) (3565158691848573 / 2097152) = 3565158691848573 / 2097152"
proof -
  have a: "b64_round (1 / 10) = 3602879701896397 / 36028797018963968"
    by (simp add: b64_round_def b64_pos_def round_up.simps rne_def)
  have b: "advance binary64 (3602879701896397 / 36028797018963968) 0 1 = 1"
    by (simp add: advance_def binary64_def b64_floordiv_def py_fmod_def Let_def
        b64_round_def b64_pos_def round_up.simps round_down.simps rne_def)
  have c: "b64_round (7130317363564487 / 4194304) = 7130317363564487 / 4194304"
    by (simp add: b64_round_def b64_pos_def round_up.simps rne_def)
  have d: "b64_round (3565158691848573 / 2097152) = 3565158691848573 / 2097152"
    by (simp add: b64_round_def b64_pos_def round_up.simps rne_def)
  have e: "advance binary64 (3602879701896397 / 36028797018963968)
     (7130317363564487 / 4194304) (3565158691848573 / 2097152) = 3565158691848573 / 2097152"
    by (simp add: advance_def binary64_def b64_floordiv_def py_fmod_def Let_def
        b64_round_def b64_pos_def round_up.simps round_down.simps rne_def)
  from a b c d e show ?thesis by simp
qed

text \<open>
  Claim C5, amended. For a positive delay, each iteration runs the task once and then
  sets \<open>next_time\<close> to the value of line 152, whatever the overrun was: over any
  run of the loop with \<^verbatim>\<open>do_repeat\<close> there is one fetch for each iteration, so fires
  that were missed are skipped and never made up for. Whenever the value of line 152
  is the one exact arithmetic gives, it is \<open>next_time\<close> plus the whole intervals
  elapsed plus one: the boundary of the schedule strictly after the clock and at
  most one interval after it; the boundaries at or before the clock are exactly those
  up to the whole intervals elapsed. In binary64 this is the case when the delay
  and the two clock values are multiples of one power of two \<open>2^-g\<close>, with the
  elapsed time and the delay at most \<open>2^52\<close> and the clock plus the delay at most
  \<open>2^53\<close> such multiples, as for whole seconds: a delay of 10 with \<open>next_time\<close> 100
  and the clock at 125 gives 130.
\<close>

theorem advance_skips_ahead:
  assumes "0 < delay"
  shows "(advance ar delay next_time now =
            next_time + (of_int \<lfloor>(now - next_time) / delay\<rfloor> * delay + delay) \<longrightarrow>
            advance ar delay next_time now =
              next_time + of_int (\<lfloor>(now - next_time) / delay\<rfloor> + 1) * delay \<and>
            now < advance ar delay next_time now \<and>
            advance ar delay next_time now - delay \<le> now) \<and>
         (\<forall>j::int. (next_time + of_int j * delay \<le> now) = (j \<le> \<lfloor>(now - next_time) / delay\<rfloor>)) \<and>
         advance exact_arith delay next_time now =
            next_time + (of_int \<lfloor>(now - next_time) / delay\<rfloor> * delay + delay) \<and>
         (delay * 2 ^ g \<in> \<int> \<and> next_time * 2 ^ g \<in> \<int> \<and> now * 2 ^ g \<in> \<int> \<and> g \<le> 1074 \<and>
          \<bar>now - next_time\<bar> * 2 ^ g \<le> 2 ^ 52 \<and> delay * 2 ^ g \<le> 2 ^ 52 \<and>
          (\<bar>now\<bar> + delay) * 2 ^ g \<le> 2 ^ 53 \<longrightarrow>
            advance binary64 delay next_time now =
              next_time + (of_int \<lfloor>(now - next_time) / delay\<rfloor> * delay + delay)) \<and>
         (fst (every_step ar delay task te s) = None \<longrightarrow>
            fst (snd (every_step ar delay task te s)) = advance ar delay (fst s) (t_done te)) \<and>
         fst (every_loop ar delay (do_repeat ops cfg) tes s) = None \<and>
         length (filter is_get (trace (snd (snd (every_loop ar delay (do_repeat ops cfg) tes s))))) =
           length (filter is_get (trace (snd s))) + length tes \<and>
         advance binary64 10 100 125 = 130"
proof (intro conjI allI impI)
  note fb = floor_mult_bounds [OF assms, of "now - next_time"]
  assume e: "advance ar delay next_time now =
            next_time + (of_int \<lfloor>(now - next_time) / delay\<rfloor> * delay + delay)"
  show "advance ar delay next_time now =
              next_time + of_int (\<lfloor>(now - next_time) / delay\<rfloor> + 1) * delay"
    unfolding e by (simp add: algebra_simps)
  show "now < advance ar delay next_time now"
    unfolding e using fb(2) by linarith
  show "advance ar delay next_time now - delay \<le> now"
    unfolding e using fb(1) by linarith
next
  show "\<And>j. (next_time + of_int j * delay \<le> now) = (j \<le> \<lfloor>(now - next_time) / delay\<rfloor>)"
    by (rule boundary_past [OF assms])
  show "advance exact_arith delay next_time now =
            next_time + (of_int \<lfloor>(now - next_time) / delay\<rfloor> * delay + delay)"
    by (rule advance_exact)
  from assms have d0: "delay \<noteq> 0" by simp
  show "fst (every_loop ar delay (do_repeat ops cfg) tes s) = None"
    by (rule every_loop_do_repeat [OF d0])
  show "length (filter is_get (trace (snd (snd (every_loop ar delay (do_repeat ops cfg) tes s))))) =
           length (filter is_get (trace (snd s))) + length tes"
    by (rule every_loop_gets [OF d0])
  show "advance binary64 10 100 125 = 130"
    by (simp add: advance_def binary64_def b64_floordiv_def py_fmod_def Let_def
        b64_round_def b64_pos_def round_up.simps round_down.simps rne_def)
next
  assume "delay * 2 ^ g \<in> \<int> \<and> next_time * 2 ^ g \<in> \<int> \<and> now * 2 ^ g \<in> \<int> \<and> g \<le> 1074 \<and>
          \<bar>now - next_time\<bar> * 2 ^ g \<le> 2 ^ 52 \<and> delay * 2 ^ g \<le> 2 ^ 52 \<and>
          (\<bar>now\<bar> + delay) * 2 ^ g \<le> 2 ^ 53"
  then show "advance binary64 delay next_time now =
              next_time + (of_int \<lfloor>(now - next_time) / delay\<rfloor> * delay + delay)"
    using advance_binary64_grid [OF assms, of g next_time now] by blast
next
  assume "fst (every_step ar delay task te s) = None"
  then show "fst (snd (every_step ar delay task te s)) = advance ar delay (fst s) (t_done te)"
    using assms
    by (auto simp: every_step_def Let_def split: prod.splits option.splits if_splits)
qed

text \<open>
  Witness for C5: binary64 with a delay of 2.5, \<open>next_time\<close> 100 and the clock at
  106, all multiples of one half: the boundaries 102.5 and 105 are skipped and the
  next fire time is 107.5.
\<close>

theorem advance_skips_ahead_witness:
  "(0::real) < 5 / 2 \<and>
   advance binary64 (5 / 2) 100 106 = 215 / 2 \<and>
   (106::real) < 215 / 2 \<and> (215 / 2 - 5 / 2 :: real) \<le> 106 \<and>
   (100 + of_int 2 * (5 / 2) \<le> (106::real)) \<and> \<not> (100 + of_int 3 * (5 / 2) \<le> (106::real)) \<and>
   fst (snd (every_step binary64 (5 / 2) (do_repeat exact_ops example_config)
     \<lparr> t_wake = 100, cyc = \<lparr> http = RaisesConnectionError, connect_ok = True,
                                publish_raises = False \<rparr>, t_done = 106 \<rparr>
     (100, new_worker))) = 215 / 2"
proof -
  have h: "(0::real) < 5 / 2" by simp
  have gr: "(5 / 2 :: real) * 2 ^ 1 \<in> \<int> \<and> (100::real) * 2 ^ 1 \<in> \<int> \<and> (106::real) * 2 ^ 1 \<in> \<int> \<and>
      (1::nat) \<le> 1074 \<and> \<bar>106 - 100 :: real\<bar> * 2 ^ 1 \<le> 2 ^ 52 \<and> (5 / 2 :: real) * 2 ^ 1 \<le> 2 ^ 52 \<and>
      (\<bar>106 :: real\<bar> + 5 / 2) * 2 ^ 1 \<le> 2 ^ 53"
    by simp
  have st: "fst (every_step binary64 (5 / 2) (do_repeat exact_ops example_config)
     \<lparr> t_wake = 100, cyc = \<lparr> http = RaisesConnectionError, connect_ok = True,
                                publish_raises = False \<rparr>, t_done = 106 \<rparr>
     (100, new_worker)) = None"
    by (rule every_step_do_repeat) simp
  note t = advance_skips_ahead [OF h, where ar = binary64 and next_time = 100 and now = 106
      and g = 1 and task = "do_repeat exact_ops example_config"
      and te = "\<lparr> t_wake = 100, cyc = \<lparr> http = RaisesConnectionError, connect_ok = True,
                                publish_raises = False \<rparr>, t_done = 106 \<rparr>"
      and s = "(100, new_worker)"]
  from t gr have e: "advance binary64 (5 / 2) 100 106 =
      100 + (of_int \<lfloor>(106 - 100) / (5 / 2 :: real)\<rfloor> * (5 / 2) + 5 / 2)"
    by blast
  have f: "\<lfloor>(106 - 100) / (5 / 2 :: real)\<rfloor> = 2" by simp
  from e f have v: "advance binary64 (5 / 2) 100 106 = 215 / 2" by simp
  from t e have lt: "106 < advance binary64 (5 / 2) 100 106" by blast
  from t st have "fst (snd (every_step binary64 (5 / 2) (do_repeat exact_ops example_config)
     \<lparr> t_wake = 100, cyc = \<lparr> http = RaisesConnectionError, connect_ok = True,
                                publish_raises = False \<rparr>, t_done = 106 \<rparr>
     (100, new_worker))) =
     advance binary64 (5 / 2)
       (fst (100 :: real, new_worker :: real worker))
       (t_done \<lparr> t_wake = 100, cyc = \<lparr> http = RaisesConnectionError, connect_ok = True,
                                publish_raises = False \<rparr>, t_done = 106 \<rparr>)"
    by blast
  with v lt h show ?thesis by simp
qed

end
